theory Spec2Isabelle
  imports Complex_Main "HOL-Library.AList"
begin

section \<open>Thrown values and observable events\<close>

text \<open>
  A JavaScript \<open>throw\<close> (or a rejected promise) carries a value. The client throws and
  compares two kinds of them: a plain string, and an \<open>Error\<close> object, of which only the
  name and the message are read. \<open>toStringThrown\<close> is what a template literal
  \<open>`${err}`\<close> prints.
\<close>

datatype thrown = ThrownString string | ThrownError string string

fun toStringThrown :: "thrown \<Rightarrow> string" where
  "toStringThrown (ThrownString s) = s"
| "toStringThrown (ThrownError name msg) =
     (if name = [] then msg else if msg = [] then name else name @ '': '' @ msg)"

definition newError :: "string \<Rightarrow> thrown" where
  "newError msg = ThrownError ''Error'' msg"

text \<open>
  What a run does besides returning: it invokes the wrapped operation, suspends on a
  timer (\<open>setTimeout\<close>, in milliseconds), and writes to the console.
\<close>

datatype event = Invoke | Sleep int | Log string

section \<open>The backoff retrier: \<open>promiseWithRetry\<close>\<close>

text \<open>
  \<^verbatim>\<open>
  let attempts = 0;
  while (attempts < retries) {
    try { return await promiseFunction(); }
    catch (error) {
      attempts++;
      if (attempts < retries) {
        await new Promise((resolve) => setTimeout(resolve, delay));
        delay *= delayMultiplier;
      }
    }
  }
  throw new Error('Max retries reached');
  \<close>
  The wrapped operation is a function of the number of times it has been invoked before:
  \<open>op i\<close> is the outcome of its invocation number \<open>i\<close> (counted from 0), \<open>Inl\<close> a
  rejection. Every rejection increments \<open>attempts\<close> and every fulfilment returns, so the
  loop invokes \<open>op attempts\<close>. The attempt budget is a count (\<open>nat\<close>); delays are
  integers of milliseconds. The loop carries the events so far.
\<close>

function promiseWithRetry_loop ::
  "(nat \<Rightarrow> thrown + 'a) \<Rightarrow> nat \<Rightarrow> int \<Rightarrow> nat \<Rightarrow> int \<Rightarrow> event list
     \<Rightarrow> event list \<times> (thrown + 'a)" where
  "promiseWithRetry_loop promiseFunction retries delayMultiplier attempts delay evs =
     (if attempts < retries then
        (case promiseFunction attempts of
           Inr v \<Rightarrow> (evs @ [Invoke], Inr v)
         | Inl error \<Rightarrow>
             (if Suc attempts < retries
              then promiseWithRetry_loop promiseFunction retries delayMultiplier (Suc attempts)
                     (delay * delayMultiplier) (evs @ [Invoke, Sleep delay])
              else promiseWithRetry_loop promiseFunction retries delayMultiplier (Suc attempts)
                     delay (evs @ [Invoke])))
      else (evs, Inl (newError ''Max retries reached'')))"
  by pat_completeness auto
termination
  by (relation "measure (\<lambda>(f, retries, m, attempts, d, evs). retries - attempts)") auto

declare promiseWithRetry_loop.simps [simp del]

definition promiseWithRetry ::
  "(nat \<Rightarrow> thrown + 'a) \<Rightarrow> nat \<Rightarrow> int \<Rightarrow> int \<Rightarrow> event list \<times> (thrown + 'a)" where
  "promiseWithRetry promiseFunction retries delay delayMultiplier =
     promiseWithRetry_loop promiseFunction retries delayMultiplier 0 delay []"

text \<open>The number of invocations and the suspensions of a run, read off its events.\<close>

definition invocations :: "event list \<Rightarrow> nat" where
  "invocations evs = length (filter (\<lambda>e. e = Invoke) evs)"

fun sleeps :: "event list \<Rightarrow> int list" where
  "sleeps [] = []"
| "sleeps (Sleep d # evs) = d # sleeps evs"
| "sleeps (_ # evs) = sleeps evs"

text \<open>
  The schedule the specification gives for an operation that never succeeds: attempt
  \<open>i\<close>, then (unless it was the last) a suspension of
  \<open>initialDelay * multiplier ^ i\<close>.
\<close>

definition backoffSchedule :: "nat \<Rightarrow> int \<Rightarrow> int \<Rightarrow> event list" where
  "backoffSchedule maxAttempts initialDelay multiplier =
     concat (map (\<lambda>i. if Suc i < maxAttempts then [Invoke, Sleep (initialDelay * multiplier ^ i)]
                        else [Invoke])
                 [0..<maxAttempts])"


section \<open>The bulk scheduler: \<open>processPromisesInBulks\<close>\<close>

text \<open>
  \<^verbatim>\<open>
  const results: any[] = [];
  for (let i = 0; i < promisesFuncs.length; i += bulkSize) {
    const bulk = promisesFuncs.slice(i, i + bulkSize);
    const bulkResults = await Promise.allSettled(
      bulk.map((func) => this.promiseWithRetry(func, maxRetries, initialBackoff, delayMultiplier)));
    bulkResults.forEach((result) => {
      if (result.status === 'fulfilled') { results.push(...result.value); }
      else { console.error('Failed to fetch:', result.reason); }
    });
  }
  return results;
  \<close>
  Every operation fulfils with an array, which \<open>push(...)\<close> spreads into the results.
  \<open>Promise.allSettled\<close> gives the outcomes in the order of the bulk, whatever the order
  in which its members settled, so the model takes the outcome of each member's own
  retried run. The state of the loop is the results so far and the reasons written by
  \<open>console.error\<close>. With \<open>bulkSize = 0\<close> and a non-empty list the index never advances
  and the loop does not end: the loop is a partial function, \<open>None\<close> when it does not
  return.
\<close>

definition settle :: "'a list \<times> thrown list \<Rightarrow> thrown + 'a list \<Rightarrow> 'a list \<times> thrown list" where
  "settle st result =
     (case result of
        Inr value \<Rightarrow> (fst st @ value, snd st)
      | Inl reason \<Rightarrow> (fst st, snd st @ [reason]))"

partial_function (option) processPromisesInBulks_loop ::
  "(nat \<Rightarrow> thrown + 'a list) list \<Rightarrow> nat \<Rightarrow> nat \<Rightarrow> int \<Rightarrow> int \<Rightarrow> nat
     \<Rightarrow> 'a list \<times> thrown list \<Rightarrow> ('a list \<times> thrown list) option" where
  "processPromisesInBulks_loop promisesFuncs bulkSize maxRetries initialBackoff delayMultiplier i st =
     (if i < length promisesFuncs then
        (let bulk = take bulkSize (drop i promisesFuncs);
             bulkResults =
               map (\<lambda>func. snd (promiseWithRetry func maxRetries initialBackoff delayMultiplier)) bulk
         in processPromisesInBulks_loop promisesFuncs bulkSize maxRetries initialBackoff
              delayMultiplier (i + bulkSize) (foldl settle st bulkResults))
      else Some st)"

definition processPromisesInBulks ::
  "(nat \<Rightarrow> thrown + 'a list) list \<Rightarrow> nat \<Rightarrow> nat \<Rightarrow> int \<Rightarrow> int
     \<Rightarrow> ('a list \<times> thrown list) option" where
  "processPromisesInBulks promisesFuncs bulkSize maxRetries initialBackoff delayMultiplier =
     processPromisesInBulks_loop promisesFuncs bulkSize maxRetries initialBackoff delayMultiplier
       0 ([], [])"

text \<open>
  In the specification's words: an operation succeeds within the retry budget when one
  of its first \<open>budget\<close> invocations is fulfilled; the first such invocation gives its
  result.
\<close>

definition firstSuccess :: "(nat \<Rightarrow> thrown + 'b) \<Rightarrow> nat \<Rightarrow> 'b option" where
  "firstSuccess operation budget =
     (case find (\<lambda>i. \<not> isl (operation i)) [0..<budget] of
        None \<Rightarrow> None
      | Some i \<Rightarrow> (case operation i of Inr v \<Rightarrow> Some v | Inl e \<Rightarrow> None))"

section \<open>\<open>parseInt\<close>\<close>

text \<open>
  JavaScript's \<open>parseInt(string)\<close> with no radix: leading white space is skipped, then an
  optional sign, then \<open>0x\<close> or \<open>0X\<close> selects radix 16 (radix 10 otherwise), then the
  longest run of digits of the radix is read; with no digit the result is \<open>NaN\<close>, here
  \<open>None\<close>. Characters are bytes, so the white space is ASCII's (tab, line feed, vertical
  tab, form feed, carriage return, space); numbers are integers, exact below \<open>2 ^ 53\<close>.
\<close>

definition isWhiteSpace :: "char \<Rightarrow> bool" where
  "isWhiteSpace c = (let n = (of_char c :: nat) in (9 \<le> n \<and> n \<le> 13) \<or> n = 32)"

definition digitValue :: "char \<Rightarrow> nat option" where
  "digitValue c =
     (let n = (of_char c :: nat) in
      if 48 \<le> n \<and> n \<le> 57 then Some (n - 48)
      else if 97 \<le> n \<and> n \<le> 122 then Some (n - 87)
      else if 65 \<le> n \<and> n \<le> 90 then Some (n - 55)
      else None)"

definition isDigitOf :: "nat \<Rightarrow> char \<Rightarrow> bool" where
  "isDigitOf radix c = (case digitValue c of None \<Rightarrow> False | Some v \<Rightarrow> v < radix)"

definition parseInt :: "string \<Rightarrow> int option" where
  "parseInt string =
     (let s0 = dropWhile isWhiteSpace string;
          negative = (case s0 of [] \<Rightarrow> False | c # r \<Rightarrow> c = CHR ''-'');
          s1 = (case s0 of [] \<Rightarrow> [] | c # r \<Rightarrow> if c = CHR ''-'' \<or> c = CHR ''+'' then r else s0);
          hex = (case s1 of c # x # r \<Rightarrow> c = CHR ''0'' \<and> (x = CHR ''x'' \<or> x = CHR ''X'') | _ \<Rightarrow> False);
          radix = (if hex then 16 else 10);
          s2 = (if hex then drop 2 s1 else s1);
          digits = takeWhile (isDigitOf radix) s2;
          magnitude = foldl (\<lambda>acc c. acc * radix + the (digitValue c)) 0 digits
      in if digits = [] then None
         else Some (if negative then - int magnitude else int magnitude))"

section \<open>The paginated fetcher: \<open>fetchStories\<close>\<close>

text \<open>
  The remote collection is a function of the request and of how many times that same
  request has been made before in the current run of \<open>fetchStories\<close>: it rejects
  (\<open>Inl\<close>, also for a body that is not JSON) or gives the response, of which the
  client reads the \<open>total\<close> header (\<open>None\<close> when absent) and the \<open>stories\<close> property of
  the body (\<open>None\<close> when it is undefined or null). An entry is opaque here.
\<close>

record request =
  req_per_page :: int
  req_page :: "int option"
  req_language :: string
  req_cv :: string

record 'a response =
  header_total :: "string option"
  body_stories :: "'a list option"

type_synonym 'a server = "request \<Rightarrow> nat \<Rightarrow> thrown + 'a response"

record storyblokParams =
  p_version :: string
  p_per_page :: int
  p_cv :: string
  p_language :: string
  p_fallback_lang :: "string option"

text \<open>
  \<^verbatim>\<open>
  const res = await fetch(`${this.API_URL}&per_page=${per_page}&page=${page}&language=${language}&cv=${cv}`);
  const data = await res.json();
  const stories = data.stories ?? [];
  return stories.length ? stories : [];
  \<close>
\<close>

text \<open>\<open>data.stories ?? []\<close>: the stories of a body, none when the property is missing.\<close>

definition storiesOrEmpty :: "'a response \<Rightarrow> 'a list" where
  "storiesOrEmpty data = (case body_stories data of None \<Rightarrow> [] | Some s \<Rightarrow> s)"

definition fetchAdditionalStories ::
  "'a server \<Rightarrow> int \<Rightarrow> int \<Rightarrow> string \<Rightarrow> string \<Rightarrow> nat \<Rightarrow> thrown + 'a list" where
  "fetchAdditionalStories srv per_page page language cv attempt =
     (case srv \<lparr>req_per_page = per_page, req_page = Some page, req_language = language,
                req_cv = cv\<rparr> attempt of
        Inl error \<Rightarrow> Inl error
      | Inr data \<Rightarrow>
          (let stories = storiesOrEmpty data
           in Inr (if length stories \<noteq> 0 then stories else [])))"

text \<open>
  \<open>parseInt(firstResponse.headers.get('total') ?? '0') || 0\<close>: an absent header reads
  as \<open>'0'\<close>, and \<open>NaN\<close> (like 0) is falsy, so it becomes 0.
\<close>

definition totalFromHeader :: "string option \<Rightarrow> int" where
  "totalFromHeader header =
     (case parseInt (case header of None \<Rightarrow> ''0'' | Some h \<Rightarrow> h) of
        None \<Rightarrow> 0
      | Some n \<Rightarrow> n)"

text \<open>
  \<open>Math.ceil(total / per_page)\<close> for integers: the quotient by zero is \<open>Infinity\<close>,
  \<open>-Infinity\<close> or \<open>NaN\<close>, which \<open>Math.ceil\<close> keeps; otherwise it is the ceiling of the
  exact quotient. \<open>page <= totalPages\<close> is false for \<open>NaN\<close>.
\<close>

datatype number = Finite int | Infinity | MinusInfinity | NaN

definition totalPagesOf :: "int \<Rightarrow> int \<Rightarrow> number" where
  "totalPagesOf totalCount per_page =
     (if per_page = 0
      then (if 0 < totalCount then Infinity else if totalCount < 0 then MinusInfinity else NaN)
      else Finite (- ((- totalCount) div per_page)))"

fun lessEq :: "int \<Rightarrow> number \<Rightarrow> bool" where
  "lessEq page (Finite n) = (page \<le> n)"
| "lessEq page Infinity = True"
| "lessEq page MinusInfinity = False"
| "lessEq page NaN = False"

text \<open>
  \<^verbatim>\<open>
  for (let page = 2; page <= totalPages; page++) {
    additionalPages.push(() => this.fetchAdditionalStories(per_page, page, language, cv));
  }
  \<close>
  The loop collects the page numbers; it does not end when \<open>totalPages\<close> is \<open>Infinity\<close>.
\<close>

partial_function (option) additionalPages_loop ::
  "int \<Rightarrow> number \<Rightarrow> int list \<Rightarrow> int list option" where
  "additionalPages_loop page totalPages pages =
     (if lessEq page totalPages
      then additionalPages_loop (page + 1) totalPages (pages @ [page])
      else Some pages)"

text \<open>
  \<^verbatim>\<open>
  try {
    const firstResponse = await fetch(`${this.API_URL}&per_page=${per_page}&language=${language}&cv=${cv}`);
    const firstData = await firstResponse.json();
    const total = parseInt(firstResponse.headers.get('total') ?? '0') || 0;
    let totalPages = Math.ceil(total / per_page);
    let allStories = firstData.stories ?? [];
    const additionalPages = [];
    for (...) { ... }
    const additionalStories = await this.processPromisesInBulks(additionalPages, 20);
    const flattenedStories = additionalStories.flat();
    allStories = allStories.concat(flattenedStories);
    return allStories;
  } catch (error) {
    throw new Error(`Failed to fetch to fetch stories: ${error}`);
  }
  \<close>
  The result is the reasons the scheduler logged and the outcome; \<open>None\<close> when the call
  does not return. The scheduler runs with its defaults: 5 attempts, 1000 ms, factor 2.
  Entries are objects, not arrays, so \<open>flat()\<close> leaves the list as it is.
\<close>

definition firstRequest :: "storyblokParams \<Rightarrow> request" where
  "firstRequest params =
     \<lparr>req_per_page = p_per_page params, req_page = None, req_language = p_language params,
      req_cv = p_cv params\<rparr>"

definition fetchStories ::
  "'a server \<Rightarrow> storyblokParams \<Rightarrow> (thrown list \<times> (thrown + 'a list)) option" where
  "fetchStories srv params =
     (case srv (firstRequest params) 0 of
        Inl error \<Rightarrow>
          Some ([], Inl (newError (''Failed to fetch to fetch stories: '' @ toStringThrown error)))
      | Inr firstData \<Rightarrow>
          (let total = totalFromHeader (header_total firstData);
               totalPages = totalPagesOf total (p_per_page params);
               allStories = storiesOrEmpty firstData
           in case additionalPages_loop 2 totalPages [] of
                None \<Rightarrow> None
              | Some additionalPages \<Rightarrow>
                  (case processPromisesInBulks
                          (map (\<lambda>page. fetchAdditionalStories srv (p_per_page params) page
                                          (p_language params) (p_cv params)) additionalPages)
                          20 5 1000 2 of
                     None \<Rightarrow> None
                   | Some (additionalStories, logged) \<Rightarrow>
                       Some (logged, Inr (allStories @ additionalStories)))))"

text \<open>
  Remote collections for the examples. \<open>collectionServer\<close> holds \<open>entries\<close>, serves
  them in pages of the requested size, never fails, and sends the given \<open>total\<close>
  header. \<open>page3Down\<close> announces 110 entries (five pages of 25) and rejects every
  request for page 3; an entry of it is its page number and its place on the page.
  \<open>throttledOnce\<close> rejects every request of the first call of \<open>fetchStories\<close> with
  the string \<open>'Too Many Requests'\<close> and serves a one-page collection from then on.
\<close>

definition collectionServer :: "string option \<Rightarrow> 'a list \<Rightarrow> 'a server" where
  "collectionServer totalHeader entries req attempt =
     (let size = nat (req_per_page req);
          page = (case req_page req of None \<Rightarrow> 1 | Some p \<Rightarrow> nat p)
      in Inr \<lparr>header_total = totalHeader,
               body_stories = Some (take size (drop (size * (page - 1)) entries))\<rparr>)"

definition page3Down :: "(int \<times> nat) server" where
  "page3Down req attempt =
     (case req_page req of
        None \<Rightarrow> Inr \<lparr>header_total = Some ''110'', body_stories = Some (map (Pair 1) [0..<25])\<rparr>
      | Some p \<Rightarrow>
          if p = 3 then Inl (ThrownError ''TypeError'' ''fetch failed'')
          else Inr \<lparr>header_total = Some ''110'',
                    body_stories = Some (map (Pair p) [0..<(if p = 5 then 10 else 25)])\<rparr>)"

definition throttledOnce :: "nat \<Rightarrow> nat server" where
  "throttledOnce k req attempt =
     (if k = 0 then Inl (ThrownString ''Too Many Requests'')
      else Inr \<lparr>header_total = Some ''3'', body_stories = Some [1, 2, 3]\<rparr>)"

section \<open>The outer retry: \<open>fetchMarketStories\<close>\<close>

text \<open>
  \<^verbatim>\<open>
  const params: StoryblokParams = { cv, language: marketCode, version: 'published', per_page: 25 };
  const fallbackMarket = getFallbackMarket(marketCode);
  if (fallbackMarket) { params.fallback_lang = fallbackMarket; }
  const retryAttempts = parseInt(process.env.SB_DATALAYER_RETRY ?? '5');
  for (let retries = 0; retries < retryAttempts; retries++) {
    try { return await this.fetchStories(params); }
    catch (err) {
      console.log(err);
      if (err === 'Too Many Requests') {
        console.log('Too many requests, waiting for 10 seconds...');
        await new Promise((resolve) => setTimeout(resolve, 10000));
      } else {
        throw new Error(`[DATALAYER] Error in fetchMarketStories: ${err}`);
      }
    }
  }
  throw new Error('[DATALAYER] Error in fetchMarketStories: Maximum retry attempts exceeded');
  \<close>
  \<open>world k\<close> is the remote collection as the call number \<open>k\<close> of \<open>fetchStories\<close> finds
  it. The events of a run are one \<open>Invoke\<close> for each call of \<open>fetchStories\<close>, the lines
  written to the console, and the suspensions. \<open>retries < retryAttempts\<close> is false when
  \<open>retryAttempts\<close> is \<open>NaN\<close>. \<open>getFallbackMarket\<close> belongs to another package; its
  result is a parameter.
\<close>

definition withinAttempts :: "nat \<Rightarrow> int option \<Rightarrow> bool" where
  "withinAttempts retries retryAttempts =
     (case retryAttempts of None \<Rightarrow> False | Some n \<Rightarrow> int retries < n)"

function fetchMarketStories_loop ::
  "(nat \<Rightarrow> 'a server) \<Rightarrow> storyblokParams \<Rightarrow> int option \<Rightarrow> nat \<Rightarrow> event list
     \<Rightarrow> (event list \<times> (thrown + 'a list)) option" where
  "fetchMarketStories_loop world params retryAttempts retries evs =
     (if withinAttempts retries retryAttempts then
        (case fetchStories (world retries) params of
           None \<Rightarrow> None
         | Some (logged, Inr allStories) \<Rightarrow>
             Some (evs @ [Invoke] @ map (\<lambda>r. Log (toStringThrown r)) logged, Inr allStories)
         | Some (logged, Inl err) \<Rightarrow>
             (let evs' = evs @ [Invoke] @ map (\<lambda>r. Log (toStringThrown r)) logged
                           @ [Log (toStringThrown err)]
              in if err = ThrownString ''Too Many Requests''
                 then fetchMarketStories_loop world params retryAttempts (Suc retries)
                        (evs' @ [Log ''Too many requests, waiting for 10 seconds...'', Sleep 10000])
                 else Some (evs', Inl (newError (''[DATALAYER] Error in fetchMarketStories: ''
                                                  @ toStringThrown err)))))
      else Some (evs, Inl (newError
             ''[DATALAYER] Error in fetchMarketStories: Maximum retry attempts exceeded'')))"
  by pat_completeness auto
termination
  by (relation "measure (\<lambda>(w, p, retryAttempts, retries, evs).
                  (case retryAttempts of None \<Rightarrow> 0 | Some n \<Rightarrow> nat n) - retries)")
     (auto simp: withinAttempts_def split: option.splits)

declare fetchMarketStories_loop.simps [simp del]

definition fetchMarketStories ::
  "(nat \<Rightarrow> 'a server) \<Rightarrow> string option \<Rightarrow> string option \<Rightarrow> string \<Rightarrow> string
     \<Rightarrow> (event list \<times> (thrown + 'a list)) option" where
  "fetchMarketStories world SB_DATALAYER_RETRY fallbackMarket marketCode cv =
     (let params = \<lparr>p_version = ''published'', p_per_page = 25, p_cv = cv,
                     p_language = marketCode, p_fallback_lang = fallbackMarket\<rparr>;
          retryAttempts = parseInt (case SB_DATALAYER_RETRY of None \<Rightarrow> ''5'' | Some s \<Rightarrow> s)
      in fetchMarketStories_loop world params retryAttempts 0 [])"


section \<open>Content values and the object store\<close>

text \<open>
  The resolvers assign to properties of objects that are shared: an entry is held by
  the list of stories, by the dictionary and, once substituted, by every object that
  referred to it. Objects and arrays therefore live in a store and a value refers to
  them by address. Numbers are integers. An object is its own enumerable properties in
  the order in which \<open>Object.entries\<close> lists them; properties inherited from
  \<open>Object.prototype\<close> are outside the model.
\<close>

type_synonym addr = nat

datatype val = VUndefined | VNull | VBool bool | VNum int | VStr string | VRef addr

datatype obj = HObject "(string \<times> val) list" | HArray "val list"

type_synonym heap = "obj list"

text \<open>An address of the program always holds an object; outside the store it reads as \<open>{}\<close>.\<close>

definition deref :: "heap \<Rightarrow> addr \<Rightarrow> obj" where
  "deref h a = (if a < length h then h ! a else HObject [])"

definition alloc :: "obj \<Rightarrow> heap \<Rightarrow> addr \<times> heap" where
  "alloc ob h = (length h, h @ [ob])"

fun truthy :: "val \<Rightarrow> bool" where
  "truthy VUndefined = False"
| "truthy VNull = False"
| "truthy (VBool b) = b"
| "truthy (VNum n) = (n \<noteq> 0)"
| "truthy (VStr s) = (s \<noteq> [])"
| "truthy (VRef a) = True"

fun showNat :: "nat \<Rightarrow> string" where
  "showNat n =
     (if n < 10 then [char_of (48 + n)] else showNat (n div 10) @ [char_of (48 + n mod 10)])"

declare showNat.simps [simp del]

definition showInt :: "int \<Rightarrow> string" where
  "showInt i = (if i < 0 then CHR ''-'' # showNat (nat (- i)) else showNat (nat i))"

text \<open>
  The own enumerable properties of an object, as \<open>Object.entries\<close> gives them: an array
  has its elements under their indices.
\<close>

fun objectEntries :: "obj \<Rightarrow> (string \<times> val) list" where
  "objectEntries (HObject props) = props"
| "objectEntries (HArray items) = zip (map showNat [0..<length items]) items"

definition getProp :: "obj \<Rightarrow> string \<Rightarrow> val" where
  "getProp ob k = (case map_of (objectEntries ob) k of None \<Rightarrow> VUndefined | Some v \<Rightarrow> v)"

text \<open>
  \<open>object[k] = v\<close>. The resolvers assign only under keys that \<open>Object.entries\<close> or
  \<open>Object.keys\<close> gave them; an array has no other property here.
\<close>

fun setProp :: "obj \<Rightarrow> string \<Rightarrow> val \<Rightarrow> obj" where
  "setProp (HObject props) k v = HObject (AList.update k v props)"
| "setProp (HArray items) k v =
     HArray (map (\<lambda>(i, x). if showNat i = k then v else x) (zip [0..<length items] items))"

definition assign :: "heap \<Rightarrow> addr \<Rightarrow> string \<Rightarrow> val \<Rightarrow> heap" where
  "assign h a k v = h[a := setProp (deref h a) k v]"

text \<open>
  The own enumerable properties of any value: a string has its characters under their
  indices, the other scalars have none.
\<close>

definition ownEntries :: "heap \<Rightarrow> val \<Rightarrow> (string \<times> val) list" where
  "ownEntries h v =
     (case v of
        VRef a \<Rightarrow> objectEntries (deref h a)
      | VStr s \<Rightarrow> zip (map showNat [0..<length s]) (map (\<lambda>c. VStr [c]) s)
      | _ \<Rightarrow> [])"

definition propertyOf :: "heap \<Rightarrow> val \<Rightarrow> string \<Rightarrow> val" where
  "propertyOf h v k = (case map_of (ownEntries h v) k of None \<Rightarrow> VUndefined | Some x \<Rightarrow> x)"

text \<open>
  \<open>dictionary[v]\<close> turns \<open>v\<close> into a property key, a string. An object prints as
  \<open>[object Object]\<close>, an array as its elements joined by commas, \<open>null\<close> and
  \<open>undefined\<close> elements as nothing. The nesting followed is bounded by the size of the
  store, which is exact on a store without cycles.
\<close>

fun joinWith :: "string \<Rightarrow> string list \<Rightarrow> string" where
  "joinWith sep [] = []"
| "joinWith sep [x] = x"
| "joinWith sep (x # y # ys) = x @ sep @ joinWith sep (y # ys)"

fun toStringVal :: "nat \<Rightarrow> heap \<Rightarrow> val \<Rightarrow> string" where
  "toStringVal n h VUndefined = ''undefined''"
| "toStringVal n h VNull = ''null''"
| "toStringVal n h (VBool b) = (if b then ''true'' else ''false'')"
| "toStringVal n h (VNum i) = showInt i"
| "toStringVal n h (VStr s) = s"
| "toStringVal 0 h (VRef a) = []"
| "toStringVal (Suc n) h (VRef a) =
     (case deref h a of
        HObject props \<Rightarrow> ''[object Object]''
      | HArray items \<Rightarrow>
          joinWith '',''
            (map (\<lambda>x. if x = VUndefined \<or> x = VNull then [] else toStringVal n h x) items))"

definition toPropertyKey :: "heap \<Rightarrow> val \<Rightarrow> string" where
  "toPropertyKey h v = toStringVal (length h) h v"

section \<open>The dictionary builder: \<open>createReferencedStoriesDictionary\<close>\<close>

text \<open>
  \<^verbatim>\<open>
  return stories.reduce((acc, story) => { acc[story.uuid] = story; return acc; }, {});
  \<close>
  The stories are objects of the store, and the dictionary holds their addresses: the
  entries themselves. The store is read, not changed.
\<close>

type_synonym dictionary = "(string \<times> addr) list"

definition storyKey :: "heap \<Rightarrow> addr \<Rightarrow> string" where
  "storyKey h story = toPropertyKey h (getProp (deref h story) ''uuid'')"

definition createReferencedStoriesDictionary :: "heap \<Rightarrow> addr list \<Rightarrow> dictionary" where
  "createReferencedStoriesDictionary h stories =
     foldl (\<lambda>acc story. AList.update (storyKey h story) story acc) [] stories"

text \<open>\<open>dictionary[v]\<close>: the entry under the key of \<open>v\<close>, \<open>undefined\<close> when there is none.\<close>

definition lookupDictionary :: "dictionary \<Rightarrow> heap \<Rightarrow> val \<Rightarrow> val" where
  "lookupDictionary dictionary h v =
     (case map_of dictionary (toPropertyKey h v) of None \<Rightarrow> VUndefined | Some e \<Rightarrow> VRef e)"

section \<open>The whole-tree resolver: \<open>resolveRelationsForStory\<close>\<close>

text \<open>
  A call either returns, with the store as it left it, or throws. The recursion of the
  resolvers is not bounded by the code, so a call takes the number of stack frames left
  to it; a call with none left throws the engine's \<open>RangeError\<close>.
\<close>

datatype 'a outcome = Returned 'a heap | Threw thrown heap

definition stackOverflow :: thrown where
  "stackOverflow = ThrownError ''RangeError'' ''Maximum call stack size exceeded''"

text \<open>
  \<^verbatim>\<open>
  for (const [k, v] of Object.entries(story)) {
    if (v !== null && k !== 'uuid' && k !== '_uid') {
      if (Array.isArray(v)) {
        story[k] = v.map((item) => {
          if (item !== null && typeof item === 'object') {
            return this.resolveRelationsForStory(item, dictionary);
          } else if (dictionary[item]) {
            return dictionary[item];
          }
          return item;
        });
      } else if (typeof v === 'object') {
        story[k] = this.resolveRelationsForStory(v, dictionary);
      } else if (dictionary[v]) {
        story[k] = dictionary[v];
        this.resolveRelationsForStory(story[k], dictionary);
      }
    }
  }
  return story;
  \<close>
  This is the text of the second file; in \<open>src/storyblok-fast-client.ts\<close> the condition
  is \<open>v !== null\<close> alone. The two differ in nothing else, so the model takes the test on
  the key as a parameter \<open>skip\<close>. \<open>Object.entries\<close> is a snapshot taken when the loop
  starts; \<open>map\<close> reads each element when it reaches it and builds a new array.
\<close>

text \<open>The address a value refers to, if it is an object or an array.\<close>

fun asRef :: "val \<Rightarrow> addr option" where
  "asRef (VRef a) = Some a"
| "asRef v = None"

function (sequential) resolveStory ::
      "(string \<Rightarrow> bool) \<Rightarrow> dictionary \<Rightarrow> nat \<Rightarrow> addr \<Rightarrow> heap \<Rightarrow> unit outcome"
  and resolveEntries ::
      "(string \<Rightarrow> bool) \<Rightarrow> dictionary \<Rightarrow> nat \<Rightarrow> addr \<Rightarrow> (string \<times> val) list \<Rightarrow> heap
         \<Rightarrow> unit outcome"
  and mapItems ::
      "(string \<Rightarrow> bool) \<Rightarrow> dictionary \<Rightarrow> nat \<Rightarrow> addr \<Rightarrow> nat list \<Rightarrow> val list \<Rightarrow> heap
         \<Rightarrow> (val list) outcome"
where
  "resolveStory skip dictionary 0 story h = Threw stackOverflow h"
| "resolveStory skip dictionary (Suc frames) story h =
     resolveEntries skip dictionary frames story (objectEntries (deref h story)) h"
| "resolveEntries skip dictionary frames story [] h = Returned () h"
| "resolveEntries skip dictionary frames story ((k, v) # rest) h =
     (if v \<noteq> VNull \<and> \<not> skip k then
        (case asRef v of
           Some a \<Rightarrow>
             (case deref h a of
                HArray items \<Rightarrow>
                  (case mapItems skip dictionary frames a [0..<length items] [] h of
                     Threw e h' \<Rightarrow> Threw e h'
                   | Returned mapped h' \<Rightarrow>
                       resolveEntries skip dictionary frames story rest
                         (assign (snd (alloc (HArray mapped) h')) story k
                            (VRef (fst (alloc (HArray mapped) h')))))
              | HObject props \<Rightarrow>
                  (case resolveStory skip dictionary frames a h of
                     Threw e h' \<Rightarrow> Threw e h'
                   | Returned u h' \<Rightarrow>
                       resolveEntries skip dictionary frames story rest (assign h' story k (VRef a))))
         | None \<Rightarrow>
             (case asRef (lookupDictionary dictionary h v) of
                Some entry \<Rightarrow>
                  (case resolveStory skip dictionary frames entry (assign h story k (VRef entry)) of
                     Threw e h' \<Rightarrow> Threw e h'
                   | Returned u h' \<Rightarrow> resolveEntries skip dictionary frames story rest h')
              | None \<Rightarrow> resolveEntries skip dictionary frames story rest h))
      else resolveEntries skip dictionary frames story rest h)"
| "mapItems skip dictionary frames array [] mapped h = Returned mapped h"
| "mapItems skip dictionary frames array (i # indices) mapped h =
     (case asRef (getProp (deref h array) (showNat i)) of
        Some a \<Rightarrow>
          (case resolveStory skip dictionary frames a h of
             Threw e h' \<Rightarrow> Threw e h'
           | Returned u h' \<Rightarrow>
               mapItems skip dictionary frames array indices (mapped @ [VRef a]) h')
      | None \<Rightarrow>
          (case asRef (lookupDictionary dictionary h (getProp (deref h array) (showNat i))) of
             Some entry \<Rightarrow>
               mapItems skip dictionary frames array indices (mapped @ [VRef entry]) h
           | None \<Rightarrow> mapItems skip dictionary frames array indices
                       (mapped @ [getProp (deref h array) (showNat i)]) h))"
  by pat_completeness auto
termination
  by (relation "inv_image (less_than <*lex*> less_than <*lex*> less_than)
        (\<lambda>x. case x of
           Inl (skip, d, n, story, h) \<Rightarrow> (n, 0, 0)
         | Inr (Inl (skip, d, n, story, es, h)) \<Rightarrow> (n, 2, length es)
         | Inr (Inr (skip, d, n, arr, idx, mapped, h)) \<Rightarrow> (n, 1, length idx))")
     auto


text \<open>The resolver of \<open>src/storyblok-fast-client.ts\<close>, and the one of the second file.\<close>

definition resolveRelationsForStory :: "dictionary \<Rightarrow> nat \<Rightarrow> addr \<Rightarrow> heap \<Rightarrow> unit outcome" where
  "resolveRelationsForStory = resolveStory (\<lambda>k. False)"

definition reservedKey :: "string \<Rightarrow> bool" where
  "reservedKey k = (k = ''uuid'' \<or> k = ''_uid'')"

definition resolveRelationsForStory_reserved ::
  "dictionary \<Rightarrow> nat \<Rightarrow> addr \<Rightarrow> heap \<Rightarrow> unit outcome" where
  "resolveRelationsForStory_reserved = resolveStory reservedKey"

section \<open>The declared-field resolver: \<open>resolveNestedComponents\<close>\<close>

text \<open>
  The resolver reads the content through two libraries. \<open>flatten\<close> (package \<open>flat\<close>)
  turns a nested value into one object from paths to leaves, the keys on a path joined
  by dots; an empty object or array is a leaf. \<open>get\<close> (package \<open>lodash.get\<close>) follows
  a path written in that way. Both are modelled for property names without dots and
  brackets, which is all a path of \<open>flatten\<close> can be told apart by.
\<close>

fun splitDot :: "string \<Rightarrow> string list" where
  "splitDot [] = [[]]"
| "splitDot (c # cs) =
     (if c = CHR ''.'' then [] # splitDot cs
      else (case splitDot cs of [] \<Rightarrow> [[c]] | part # parts \<Rightarrow> (c # part) # parts))"

fun getPath :: "heap \<Rightarrow> val \<Rightarrow> string list \<Rightarrow> val" where
  "getPath h v [] = v"
| "getPath h v (k # ks) =
     (if v = VUndefined \<or> v = VNull then VUndefined else getPath h (propertyOf h v k) ks)"

definition lodashGet :: "heap \<Rightarrow> val \<Rightarrow> string \<Rightarrow> val" where
  "lodashGet h object path = getPath h object (splitDot path)"

text \<open>
  \<^verbatim>\<open>
  function step (object, prev, currentDepth) {
    Object.keys(object).forEach(function (key) {
      const value = object[key]
      const type = Object.prototype.toString.call(value)
      const isobject = (type === '[object Object]' || type === '[object Array]')
      const newKey = prev ? prev + delimiter + transformKey(key) : transformKey(key)
      if (... isobject && Object.keys(value).length && ...) {
        return step(value, newKey, currentDepth + 1)
      }
      output[newKey] = value
    })
  }
  \<close>
  \<open>flatten\<close> follows references with no guard of its own: on a store with a cycle it
  runs out of stack frames, \<open>None\<close> here.
\<close>

type_synonym flat = "(string \<times> val) list"

function (sequential) flattenStep :: "nat \<Rightarrow> heap \<Rightarrow> val \<Rightarrow> string \<Rightarrow> flat \<Rightarrow> flat option"
  and flattenEach :: "nat \<Rightarrow> heap \<Rightarrow> string \<Rightarrow> (string \<times> val) list \<Rightarrow> flat \<Rightarrow> flat option"
where
  "flattenStep 0 h object prev output = None"
| "flattenStep (Suc frames) h object prev output =
     flattenEach frames h prev (ownEntries h object) output"
| "flattenEach frames h prev [] output = Some output"
| "flattenEach frames h prev ((key, value) # rest) output =
     (if asRef value \<noteq> None \<and> ownEntries h value \<noteq> []
      then (case flattenStep frames h value (if prev \<noteq> [] then prev @ ''.'' @ key else key)
                   output of
              None \<Rightarrow> None
            | Some output' \<Rightarrow> flattenEach frames h prev rest output')
      else flattenEach frames h prev rest
             (AList.update (if prev \<noteq> [] then prev @ ''.'' @ key else key) value output))"
  by pat_completeness auto
termination
  by (relation "inv_image (less_than <*lex*> less_than)
        (\<lambda>x. case x of
           Inl (n, h, object, prev, out) \<Rightarrow> (n, 0)
         | Inr (n, h, prev, es, out) \<Rightarrow> (n, Suc (length es)))")
     auto

definition flatten :: "nat \<Rightarrow> heap \<Rightarrow> val \<Rightarrow> flat option" where
  "flatten frames h target = flattenStep frames h target [] []"

fun asStr :: "val \<Rightarrow> string option" where
  "asStr (VStr s) = Some s"
| "asStr v = None"

text \<open>
  \<^verbatim>\<open>
  const flatContent: { [key: string]: string } = flatten(components);
  const flatKeys = Object.keys(flatContent).filter((key) => {
    return componentNamesToResolve.includes(flatContent[key]);
  });
  return flatKeys.map((flatKey) => {
    const componentName = flatContent[flatKey];
    const path = flatKey.split('.');
    path.pop();
    const parentFlatKey = path.join('.');
    return { [parentFlatKey]: componentName };
  });
  \<close>
\<close>

definition findComponents ::
  "nat \<Rightarrow> heap \<Rightarrow> val \<Rightarrow> string list \<Rightarrow> (string \<times> string) list option" where
  "findComponents frames h components componentNamesToResolve =
     (case flatten frames h components of
        None \<Rightarrow> None
      | Some flatContent \<Rightarrow>
          Some (concat (map (\<lambda>(flatKey, leaf).
                  (case asStr leaf of
                     None \<Rightarrow> []
                   | Some componentName \<Rightarrow>
                       if componentName \<in> set componentNamesToResolve
                       then [(joinWith ''.'' (butlast (splitDot flatKey)), componentName)]
                       else []))
                flatContent)))"

text \<open>
  \<^verbatim>\<open>
  const relationsMap = relationsToResolve.reduce((acc: any, item: any) => {
    const [key, value] = item.split('.');
    acc[key] = value;
    return acc;
  }, {});
  \<close>
  \<open>value\<close> is undefined (\<open>None\<close>) for an item without a dot.
\<close>

definition relationsMapOf :: "string list \<Rightarrow> (string \<times> string option) list" where
  "relationsMapOf relationsToResolve =
     foldl (\<lambda>acc item.
              (case splitDot item of
                 [] \<Rightarrow> acc
               | [key] \<Rightarrow> AList.update key None acc
               | key # value # others \<Rightarrow> AList.update key (Some value) acc))
           [] relationsToResolve"

text \<open>\<open>String.prototype.includes\<close>: the key occurs in the string as a substring.\<close>

fun stringIncludes :: "string \<Rightarrow> string \<Rightarrow> bool" where
  "stringIncludes [] k = (k = [])"
| "stringIncludes (c # cs) k = (take (length k) (c # cs) = k \<or> stringIncludes cs k)"

text \<open>
  \<^verbatim>\<open>
  for (const key of Object.keys(nextComponentToResolve)) {
    if (fieldsToResolve.includes(key)) {
      if (Array.isArray(nextComponentToResolve[key])) {
        const uids: string[] = nextComponentToResolve[key];
        if (!(uids.length && typeof uids[0] === 'string')) { continue; }
        const fetchedTemplates = uids.map((uid) => dictionary?.[uid]);
        nextComponentToResolve[key] = fetchedTemplates;
        changed = true;
      } else if (typeof nextComponentToResolve[key] === 'string') {
        const uid: string = nextComponentToResolve[key];
        const fetchedTemplate = dictionary?.[uid] || uid;
        nextComponentToResolve[key] = fetchedTemplate;
        changed = true;
      }
    }
  }
  \<close>
  for a component that is an object of the store; the state is the store and \<open>changed\<close>.
\<close>

fun resolveKeys ::
  "dictionary \<Rightarrow> string \<Rightarrow> addr \<Rightarrow> string list \<Rightarrow> heap \<times> bool \<Rightarrow> heap \<times> bool" where
  "resolveKeys dictionary fieldsToResolve component [] st = st"
| "resolveKeys dictionary fieldsToResolve component (key # keys) st =
     (if stringIncludes fieldsToResolve key then
        (case asRef (getProp (deref (fst st) component) key) of
           Some a \<Rightarrow>
             (case deref (fst st) a of
                HArray uids \<Rightarrow>
                  (if uids \<noteq> [] \<and> asStr (hd uids) \<noteq> None
                   then resolveKeys dictionary fieldsToResolve component keys
                          (assign (snd (alloc (HArray (map (lookupDictionary dictionary (fst st)) uids))
                                          (fst st)))
                             component key
                             (VRef (fst (alloc (HArray (map (lookupDictionary dictionary (fst st)) uids))
                                           (fst st)))),
                           True)
                   else resolveKeys dictionary fieldsToResolve component keys st)
              | HObject props \<Rightarrow> resolveKeys dictionary fieldsToResolve component keys st)
         | None \<Rightarrow>
             (case asStr (getProp (deref (fst st) component) key) of
                Some uid \<Rightarrow>
                  resolveKeys dictionary fieldsToResolve component keys
                    (assign (fst st) component key
                       (if truthy (lookupDictionary dictionary (fst st) (VStr uid))
                        then lookupDictionary dictionary (fst st) (VStr uid) else VStr uid),
                     True)
              | None \<Rightarrow> resolveKeys dictionary fieldsToResolve component keys st))
      else resolveKeys dictionary fieldsToResolve component keys st)"


definition typeError :: "string \<Rightarrow> thrown" where
  "typeError msg = ThrownError ''TypeError'' msg"

text \<open>
  \<^verbatim>\<open>
  for (const foundComponent of foundComponents) {
    const pointer = Object.keys(foundComponent)[0];
    const name = foundComponent[pointer];
    const nextComponentToResolve = get(components, pointer);
    const fieldsToResolve = relationsMap[name];
    for (const key of Object.keys(nextComponentToResolve)) { ... }
  }
  \<close>
  \<open>Object.keys\<close> throws on \<open>undefined\<close> and \<open>null\<close>; \<open>fieldsToResolve.includes\<close> throws
  when the map holds no field for the name; and the class is strict code, where assigning
  to a character of a string throws.
\<close>

fun resolveFound ::
  "dictionary \<Rightarrow> (string \<times> string option) list \<Rightarrow> val \<Rightarrow> (string \<times> string) list
     \<Rightarrow> heap \<times> bool \<Rightarrow> bool outcome" where
  "resolveFound dictionary relationsMap components [] st = Returned (snd st) (fst st)"
| "resolveFound dictionary relationsMap components ((pointer, name) # rest) st =
     (let nextComponentToResolve = lodashGet (fst st) components pointer;
          fieldsToResolve = (case map_of relationsMap name of None \<Rightarrow> None | Some f \<Rightarrow> f);
          keys = map fst (ownEntries (fst st) nextComponentToResolve)
      in if nextComponentToResolve = VUndefined \<or> nextComponentToResolve = VNull
         then Threw (typeError ''Cannot convert undefined or null to object'') (fst st)
         else if keys = [] then resolveFound dictionary relationsMap components rest st
         else (case fieldsToResolve of
                 None \<Rightarrow> Threw (typeError ''Cannot read properties of undefined'') (fst st)
               | Some declared \<Rightarrow>
                   (case asRef nextComponentToResolve of
                      Some component \<Rightarrow>
                        resolveFound dictionary relationsMap components rest
                          (resolveKeys dictionary declared component keys st)
                    | None \<Rightarrow>
                        if list_ex (stringIncludes declared) keys
                        then Threw (typeError ''Cannot assign to read only property'') (fst st)
                        else resolveFound dictionary relationsMap components rest st)))"

text \<open>
  \<^verbatim>\<open>
  let foundComponents;
  let counter = 0;
  while ((foundComponents = this.findComponents(components, componentNamesToResolve)) &&
         counter <= maxLevelOfNesting) {
    counter++;
    let changed = false;
    for (const foundComponent of foundComponents) { ... }
    if (!changed) { break; }
  }
  return storyData;
  \<close>
  An array is truthy, so the condition is \<open>counter <= maxLevelOfNesting\<close>, tested after
  \<open>findComponents\<close> has run. The model returns \<open>counter\<close>, the number of iterations of
  the body, where the code returns \<open>storyData\<close>, which is the argument it was given.
\<close>

function resolveLoop ::
  "nat \<Rightarrow> dictionary \<Rightarrow> (string \<times> string option) list \<Rightarrow> val \<Rightarrow> nat \<Rightarrow> nat \<Rightarrow> heap
     \<Rightarrow> nat outcome" where
  "resolveLoop frames dictionary relationsMap components maxLevelOfNesting counter h =
     (case findComponents frames h components (map fst relationsMap) of
        None \<Rightarrow> Threw stackOverflow h
      | Some foundComponents \<Rightarrow>
          if counter \<le> maxLevelOfNesting then
            (case resolveFound dictionary relationsMap components foundComponents (h, False) of
               Threw e h' \<Rightarrow> Threw e h'
             | Returned changed h' \<Rightarrow>
                 if \<not> changed then Returned (Suc counter) h'
                 else resolveLoop frames dictionary relationsMap components maxLevelOfNesting
                        (Suc counter) h')
          else Returned counter h)"
  by pat_completeness auto
termination
  by (relation "measure (\<lambda>(f, d, r, c, maxLevelOfNesting, counter, h).
                           Suc maxLevelOfNesting - counter)") auto

declare resolveLoop.simps [simp del]

text \<open>
  \<^verbatim>\<open>
  const components = get(storyData, pathToComponents);
  if (!components) { return storyData; }
  const relationsMap = ...;
  const componentNamesToResolve = Object.keys(relationsMap);
  \<close>
\<close>

definition resolveNestedComponents ::
  "nat \<Rightarrow> string \<Rightarrow> string list \<Rightarrow> val \<Rightarrow> dictionary \<Rightarrow> nat \<Rightarrow> heap \<Rightarrow> nat outcome" where
  "resolveNestedComponents frames pathToComponents relationsToResolve storyData dictionary
     maxLevelOfNesting h =
     (let components = lodashGet h storyData pathToComponents
      in if \<not> truthy components then Returned 0 h
         else resolveLoop frames dictionary (relationsMapOf relationsToResolve) components
                maxLevelOfNesting 0 h)"

definition RELATIONS_TO_RESOLVE :: "string list" where
  "RELATIONS_TO_RESOLVE =
     [''Target.modelLabel'', ''Target.modalTemplate'', ''List.label'', ''Template.story'',
      ''destination.tagLabel'', ''DestinationList.label'', ''DestinationList.fromLabel'',
      ''DestinationList.funnelingLabels'', ''DestinationCarousel.staticCards'',
      ''DestinationCarousel.fromLabel'', ''DestinationCarousel.seeAllLabel'',
      ''DestinationCarousel.funnelingLabels'', ''List.label'', ''ProductCarousel.products'',
      ''Stories.openCloseLabels'', ''Stories.previousNextLabels'', ''Stories.muteUnmuteLabels'',
      ''Template.story'', ''Testimonial.labels'', ''Target.funnelingLabels'', ''gallery.moreLabel'',
      ''InfomeetingCard.showLabels'', ''InfomeetingCard.checkboxLabel'', ''PopUp.dialogTemplate'']"

section \<open>The depth-capped whole-tree resolver: \<open>replaceUUIDs\<close>\<close>

text \<open>
  \<^verbatim>\<open>
  function replaceUUIDs(content: any, currentDepth = 0): any {
    if (currentDepth >= maxDepth) { console.warn('Max depth reached'); return content; }
    if (Array.isArray(content)) {
      return content.map((item) => replaceUUIDs(item, currentDepth));
    } else if (content && typeof content === 'object') {
      if (content.uuid && content.content) {
        return { ...content, content: replaceUUIDs(content.content, currentDepth) };
      }
      const newContent: Record<string, any> = {};
      for (const key in content) {
        const value = content[key];
        if (key === '_uid' || key === 'uuid') { newContent[key] = value; continue; }
        if (typeof value === 'string' && referencedStoriesDictionary[value]) {
          const story = referencedStoriesDictionary[value];
          newContent[key] = { ...story, content: replaceUUIDs(story.content, currentDepth + 1) };
        } else {
          newContent[key] = replaceUUIDs(value, currentDepth);
        }
      }
      return newContent;
    } else if (typeof content === 'string') {
      if (referencedStoriesDictionary[content]) {
        const story = referencedStoriesDictionary[content];
        return { ...story, content: replaceUUIDs(story.content, currentDepth + 1) };
      }
    }
    return content;
  }
  \<close>
  This second whole-tree resolver of \<open>src/storyblok-fast-client.ts\<close> (inside
  \<open>resolveRelationsPS\<close>, \<open>maxDepth = 20\<close> by default) builds new objects and arrays and
  assigns to none that it was given, so the values it reads are taken as trees and the
  dictionary as a map from identifiers to the properties of the entries.
\<close>

datatype json = JUndefined | JNull | JBool bool | JNum int | JStr string
  | JArr "json list" | JObj "(string \<times> json) list"

fun jtruthy :: "json \<Rightarrow> bool" where
  "jtruthy JUndefined = False"
| "jtruthy JNull = False"
| "jtruthy (JBool b) = b"
| "jtruthy (JNum n) = (n \<noteq> 0)"
| "jtruthy (JStr s) = (s \<noteq> [])"
| "jtruthy (JArr items) = True"
| "jtruthy (JObj props) = True"

definition field :: "(string \<times> json) list \<Rightarrow> string \<Rightarrow> json" where
  "field props k = (case map_of props k of None \<Rightarrow> JUndefined | Some v \<Rightarrow> v)"

text \<open>\<open>typeof value === 'string' && referencedStoriesDictionary[value]\<close>.\<close>

fun storyNamed :: "(string \<Rightarrow> (string \<times> json) list option) \<Rightarrow> json \<Rightarrow> (string \<times> json) list option" where
  "storyNamed dict (JStr s) = dict s"
| "storyNamed dict v = None"

lemma size_prop [termination_simp]: "size (field props k) < Suc (size_list (size_prod (\<lambda>x. 0) size) props)"
proof (cases "map_of props k")
  case None
  then show ?thesis by (simp add: field_def)
next
  case (Some v)
  then have "(k, v) \<in> set props" by (rule map_of_SomeD)
  then have "size_prod (\<lambda>x. 0) size (k, v) \<le> size_list (size_prod (\<lambda>x. 0) size) props"
    by (simp add: size_list_estimation')
  with Some show ?thesis by (simp add: field_def)
qed

lemma size_item: "x \<in> set xs \<Longrightarrow> size x < Suc (size_list size xs)"
  by (simp add: less_Suc_eq_le size_list_estimation')

lemma size_value:
  "(a, b) \<in> set ps \<Longrightarrow> size b < Suc (size_list (size_prod (\<lambda>x. 0) size) ps)"
proof -
  assume "(a, b) \<in> set ps"
  then have "size_prod (\<lambda>x. 0) size (a, b) \<le> size_list (size_prod (\<lambda>x. 0) size) ps"
    by (simp add: size_list_estimation')
  then show ?thesis by simp
qed

function replaceUUIDs ::
  "(string \<Rightarrow> (string \<times> json) list option) \<Rightarrow> nat \<Rightarrow> json \<Rightarrow> nat \<Rightarrow> json" where
  "replaceUUIDs dict maxDepth content currentDepth =
     (if currentDepth \<ge> maxDepth then content
      else (case content of
              JArr items \<Rightarrow> JArr (map (\<lambda>item. replaceUUIDs dict maxDepth item currentDepth) items)
            | JObj props \<Rightarrow>
                (if jtruthy (field props ''uuid'') \<and> jtruthy (field props ''content'')
                 then JObj (AList.update ''content''
                              (replaceUUIDs dict maxDepth (field props ''content'') currentDepth) props)
                 else JObj (map (\<lambda>kv.
                        if fst kv = ''_uid'' \<or> fst kv = ''uuid'' then kv
                        else (case storyNamed dict (snd kv) of
                                Some story \<Rightarrow>
                                  (fst kv, JObj (AList.update ''content''
                                     (replaceUUIDs dict maxDepth (field story ''content'')
                                        (currentDepth + 1)) story))
                              | None \<Rightarrow> (fst kv, replaceUUIDs dict maxDepth (snd kv) currentDepth)))
                      props))
            | JStr s \<Rightarrow>
                (case dict s of
                   Some story \<Rightarrow>
                     JObj (AList.update ''content''
                             (replaceUUIDs dict maxDepth (field story ''content'') (currentDepth + 1))
                             story)
                 | None \<Rightarrow> content)
            | _ \<Rightarrow> content))"
  by pat_completeness auto
termination
  apply (relation "inv_image (less_than <*lex*> less_than)
           (\<lambda>(dict, maxDepth, content, currentDepth). (maxDepth - currentDepth, size content))")
  apply (auto simp: size_prop size_item size_value)
  done


declare replaceUUIDs.simps [simp del]

text \<open>The two entries of \<open>cycleStore\<close>, as the dictionary of \<open>replaceUUIDs\<close>.\<close>

definition cycleEntries :: "string \<Rightarrow> (string \<times> json) list option" where
  "cycleEntries =
     map_of
       [(''a'', [(''uuid'', JStr ''a''),
                 (''content'', JObj [(''component'', JStr ''page''), (''related'', JStr ''b'')])]),
        (''b'', [(''uuid'', JStr ''b''),
                 (''content'', JObj [(''component'', JStr ''page''), (''related'', JStr ''a'')])])]"

section \<open>Stores for the examples\<close>

text \<open>
  \<open>cycleStore\<close>: two entries, each naming the other in its content.
  \<open>pageStore\<close>: one entry with a block. \<open>listStore\<close>: an entry whose body holds a
  \<open>List\<close> block, its \<open>label\<close> an identifier that no entry bears. \<open>targetStore\<close>: an
  entry whose body holds a \<open>Target\<close> block with the declared fields \<open>modelLabel\<close> (an
  identifier) and \<open>funnelingLabels\<close> (a sequence: an identifier, a number and an
  identifier that no entry bears), and the entry \<open>abc-uuid\<close> they name.
\<close>

definition cycleStore :: heap where
  "cycleStore =
     [HObject [(''uuid'', VStr ''a''), (''content'', VRef 2)],
      HObject [(''uuid'', VStr ''b''), (''content'', VRef 3)],
      HObject [(''component'', VStr ''page''), (''related'', VStr ''b'')],
      HObject [(''component'', VStr ''page''), (''related'', VStr ''a'')]]"

text \<open>
  \<open>cycleStore\<close> after the resolver has put the entry \<open>b\<close> in the content of \<open>a\<close>
  (\<open>cycleHalfTied\<close>), then the entry \<open>a\<close> in the content of \<open>b\<close> (\<open>cycleTied\<close>); and
  after it has put the entry \<open>a\<close> under its own \<open>uuid\<close> (\<open>cycleSelfTied\<close>).
\<close>

definition cycleHalfTied :: heap where
  "cycleHalfTied =
     [HObject [(''uuid'', VStr ''a''), (''content'', VRef 2)],
      HObject [(''uuid'', VStr ''b''), (''content'', VRef 3)],
      HObject [(''component'', VStr ''page''), (''related'', VRef 1)],
      HObject [(''component'', VStr ''page''), (''related'', VStr ''a'')]]"

definition cycleTied :: heap where
  "cycleTied =
     [HObject [(''uuid'', VStr ''a''), (''content'', VRef 2)],
      HObject [(''uuid'', VStr ''b''), (''content'', VRef 3)],
      HObject [(''component'', VStr ''page''), (''related'', VRef 1)],
      HObject [(''component'', VStr ''page''), (''related'', VRef 0)]]"

definition cycleSelfTied :: heap where
  "cycleSelfTied =
     [HObject [(''uuid'', VRef 0), (''content'', VRef 2)],
      HObject [(''uuid'', VStr ''b''), (''content'', VRef 3)],
      HObject [(''component'', VStr ''page''), (''related'', VStr ''b'')],
      HObject [(''component'', VStr ''page''), (''related'', VStr ''a'')]]"

definition pageStore :: heap where
  "pageStore =
     [HObject [(''name'', VStr ''Home''), (''uuid'', VStr ''a''), (''content'', VRef 1)],
      HObject [(''_uid'', VStr ''x1''), (''component'', VStr ''page'')]]"

text \<open>\<open>pageStore\<close> after the resolver has put the entry under its own \<open>uuid\<close>.\<close>

definition pageSelfTied :: heap where
  "pageSelfTied =
     [HObject [(''name'', VStr ''Home''), (''uuid'', VRef 0), (''content'', VRef 1)],
      HObject [(''_uid'', VStr ''x1''), (''component'', VStr ''page'')]]"

definition listStore :: heap where
  "listStore =
     [HObject [(''uuid'', VStr ''s''), (''content'', VRef 1)],
      HObject [(''body'', VRef 2)],
      HArray [VRef 3],
      HObject [(''component'', VStr ''List''), (''label'', VStr ''missing'')]]"



section \<open>What the guarded whole-tree resolver leaves alone\<close>

text \<open>The store of an outcome, returned or thrown.\<close>

fun heapOf :: "'a outcome \<Rightarrow> heap" where
  "heapOf (Returned x h) = h"
| "heapOf (Threw e h) = h"

text \<open>
  \<open>sameReserved h h'\<close>: at every address, the values under the reserved keys \<open>uuid\<close> and
  \<open>_uid\<close> are in \<open>h'\<close> what they were in \<open>h\<close>.
\<close>

definition sameReserved :: "heap \<Rightarrow> heap \<Rightarrow> bool" where
  "sameReserved h h' \<longleftrightarrow>
     (\<forall>a k. reservedKey k \<longrightarrow> getProp (deref h' a) k = getProp (deref h a) k)"

section \<open>What a run of the key loop leaves alone\<close>


section \<open>Properties of the backoff retrier\<close>

lemma promiseWithRetry_loop_all_fail:
  "\<forall>i. isl (promiseFunction i) \<Longrightarrow>
   promiseWithRetry_loop promiseFunction n m a d evs =
     (evs @ concat (map (\<lambda>i. if Suc i < n then [Invoke, Sleep (d * m ^ (i - a))] else [Invoke])
                        [a..<n]),
      Inl (newError ''Max retries reached''))"
proof (induction promiseFunction n m a d evs rule: promiseWithRetry_loop.induct)
  case (1 f n m a d evs)
  show ?case
  proof (cases "a < n")
    case False
    then show ?thesis by (simp add: promiseWithRetry_loop.simps [of f n m a d evs])
  next
    case True
    from "1.prems" obtain e where e: "f a = Inl e" by (metis isl_def)
    have up: "[a..<n] = a # [Suc a..<n]" using True by (simp add: upt_conv_Cons)
    show ?thesis
    proof (cases "Suc a < n")
      case True
      have "map (\<lambda>i. if Suc i < n then [Invoke, Sleep (d * m * m ^ (i - Suc a))] else [Invoke])
                [Suc a..<n]
          = map (\<lambda>i. if Suc i < n then [Invoke, Sleep (d * m ^ (i - a))] else [Invoke]) [Suc a..<n]"
        by (rule map_cong) (auto simp: Suc_diff_Suc [symmetric] simp del: Suc_diff_Suc)
      with True \<open>a < n\<close> e "1.IH"(1) [OF \<open>a < n\<close> e True "1.prems"] show ?thesis
        by (simp add: promiseWithRetry_loop.simps [of f n m a d evs] up)
    next
      case False
      then have "[Suc a..<n] = []" by simp
      with False \<open>a < n\<close> e "1.IH"(2) [OF \<open>a < n\<close> e False "1.prems"] show ?thesis
        by (simp add: promiseWithRetry_loop.simps [of f n m a d evs] up)
    qed
  qed
qed

lemma promiseWithRetry_loop_invocations:
  "invocations (fst (promiseWithRetry_loop promiseFunction n m a d evs))
     \<le> invocations evs + (n - a)"
proof (induction promiseFunction n m a d evs rule: promiseWithRetry_loop.induct)
  case (1 f n m a d evs)
  show ?case
  proof (cases "a < n")
    case False
    then show ?thesis by (simp add: promiseWithRetry_loop.simps [of f n m a d evs])
  next
    case True
    show ?thesis
    proof (cases "f a")
      case (Inr v)
      with True show ?thesis
        by (simp add: promiseWithRetry_loop.simps [of f n m a d evs] invocations_def)
    next
      case (Inl e)
      show ?thesis
      proof (cases "Suc a < n")
        case True
        with \<open>a < n\<close> Inl "1.IH"(1) [OF \<open>a < n\<close> Inl True] show ?thesis
          by (simp add: promiseWithRetry_loop.simps [of f n m a d evs] invocations_def)
      next
        case False
        with \<open>a < n\<close> Inl "1.IH"(2) [OF \<open>a < n\<close> Inl False] show ?thesis
          by (simp add: promiseWithRetry_loop.simps [of f n m a d evs] invocations_def)
      qed
    qed
  qed
qed

text \<open>
  The outcome of a retried run is the first fulfilled invocation within the budget, and
  the exhaustion error when there is none.
\<close>

lemma promiseWithRetry_loop_result:
  "snd (promiseWithRetry_loop promiseFunction n m a d evs) =
     (case find (\<lambda>i. \<not> isl (promiseFunction i)) [a..<n] of
        None \<Rightarrow> Inl (newError ''Max retries reached'')
      | Some i \<Rightarrow> promiseFunction i)"
proof (induction promiseFunction n m a d evs rule: promiseWithRetry_loop.induct)
  case (1 f n m a d evs)
  show ?case
  proof (cases "a < n")
    case False
    then show ?thesis by (simp add: promiseWithRetry_loop.simps [of f n m a d evs])
  next
    case True
    have up: "[a..<n] = a # [Suc a..<n]" using True by (simp add: upt_conv_Cons)
    show ?thesis
    proof (cases "f a")
      case (Inr v)
      with True show ?thesis
        by (simp add: promiseWithRetry_loop.simps [of f n m a d evs] up)
    next
      case (Inl e)
      show ?thesis
      proof (cases "Suc a < n")
        case True
        with \<open>a < n\<close> Inl "1.IH"(1) [OF \<open>a < n\<close> Inl True] show ?thesis
          by (simp add: promiseWithRetry_loop.simps [of f n m a d evs] up)
      next
        case False
        with \<open>a < n\<close> Inl "1.IH"(2) [OF \<open>a < n\<close> Inl False] show ?thesis
          by (simp add: promiseWithRetry_loop.simps [of f n m a d evs] up)
      qed
    qed
  qed
qed

lemma promiseWithRetry_firstSuccess:
  "snd (promiseWithRetry operation budget d m) =
     (case firstSuccess operation budget of
        Some v \<Rightarrow> Inr v
      | None \<Rightarrow> Inl (newError ''Max retries reached''))"
proof (cases "find (\<lambda>i. \<not> isl (operation i)) [0..<budget]")
  case None
  then show ?thesis
    by (simp add: promiseWithRetry_def promiseWithRetry_loop_result firstSuccess_def)
next
  case (Some i)
  then have "\<not> isl (operation i)" by (auto simp: find_Some_iff)
  then obtain v where "operation i = Inr v" by (cases "operation i") auto
  with Some show ?thesis
    by (simp add: promiseWithRetry_def promiseWithRetry_loop_result firstSuccess_def)
qed

lemma invocations_backoffSchedule:
  "invocations (backoffSchedule n d m) = n"
proof -
  have "invocations (concat (map (\<lambda>i. if Suc i < k then [Invoke, Sleep (d * m ^ i)] else [Invoke])
                                 [0..<n])) = n" for k
    by (induction n) (auto simp: invocations_def)
  then show ?thesis by (simp add: backoffSchedule_def)
qed

lemma sleeps_append: "sleeps (xs @ ys) = sleeps xs @ sleeps ys"
  by (induction xs rule: sleeps.induct) auto

lemma sleeps_backoffSchedule:
  "sleeps (backoffSchedule n d m) = map (\<lambda>i. d * m ^ i) [0..<n - 1]"
proof -
  have "sleeps (concat (map (\<lambda>i. if Suc i < k then [Invoke, Sleep (d * m ^ i)] else [Invoke])
                            [0..<n])) = map (\<lambda>i. d * m ^ i) [0..<min n (k - 1)]" for k
  proof (induction n)
    case 0
    show ?case by simp
  next
    case (Suc n)
    show ?case
    proof (cases "Suc n < k")
      case True
      then have "min (Suc n) (k - 1) = Suc n" "min n (k - 1) = n" by auto
      with True Suc show ?thesis by (simp add: sleeps_append)
    next
      case False
      then have "min (Suc n) (k - 1) = min n (k - 1)" by auto
      with False Suc show ?thesis by (simp add: sleeps_append)
    qed
  qed
  from this [of n] show ?thesis by (simp add: backoffSchedule_def)
qed


text \<open>
  Claim C6. An operation that fails on every invocation is invoked exactly
  \<open>maxAttempts\<close> times; between attempt \<open>i + 1\<close> and attempt \<open>i + 2\<close> the run
  suspends for \<open>initialDelay * multiplier ^ i\<close>, for \<open>i\<close> from 0 to \<open>maxAttempts - 2\<close>,
  and not after the last attempt (the events are exactly \<open>backoffSchedule\<close>); then it
  raises the one exhaustion error, whatever the operation's own errors were.
\<close>

theorem promiseWithRetry_always_failing:
  assumes "\<forall>i. isl (operation i)"
  shows "fst (promiseWithRetry operation maxAttempts initialDelay multiplier)
           = backoffSchedule maxAttempts initialDelay multiplier
       \<and> invocations (fst (promiseWithRetry operation maxAttempts initialDelay multiplier))
           = maxAttempts
       \<and> sleeps (fst (promiseWithRetry operation maxAttempts initialDelay multiplier))
           = map (\<lambda>i. initialDelay * multiplier ^ i) [0..<maxAttempts - 1]
       \<and> snd (promiseWithRetry operation maxAttempts initialDelay multiplier)
           = Inl (ThrownError ''Error'' ''Max retries reached'')"
proof -
  have "promiseWithRetry operation maxAttempts initialDelay multiplier
          = (backoffSchedule maxAttempts initialDelay multiplier,
             Inl (newError ''Max retries reached''))"
    using promiseWithRetry_loop_all_fail [OF assms, of maxAttempts multiplier 0 initialDelay "[]",
        simplified]
    by (simp add: promiseWithRetry_def backoffSchedule_def cong: if_cong)
  then show ?thesis
    by (simp add: invocations_backoffSchedule sleeps_backoffSchedule newError_def)
qed


text \<open>
  With \<open>maxAttempts = 3\<close>, \<open>initialDelay = 100\<close> and \<open>multiplier = 2\<close>: three attempts,
  suspensions of 100 ms and 200 ms between them, none after the third.
\<close>

theorem promiseWithRetry_always_failing_witness:
  "(\<forall>i. isl ((\<lambda>i. Inl (ThrownString ''socket hang up'') :: thrown + nat list) i))
   \<and> promiseWithRetry (\<lambda>i. Inl (ThrownString ''socket hang up'') :: thrown + nat list) 3 100 2
       = ([Invoke, Sleep 100, Invoke, Sleep 200, Invoke],
          Inl (ThrownError ''Error'' ''Max retries reached''))"
proof -
  have h: "\<forall>i. isl ((\<lambda>i. Inl (ThrownString ''socket hang up'') :: thrown + nat list) i)"
    by simp
  have s: "backoffSchedule 3 100 2 = [Invoke, Sleep 100, Invoke, Sleep 200, Invoke]"
    by (simp add: backoffSchedule_def upt_rec)
  from promiseWithRetry_always_failing [OF h, of 3 100 2] s h show ?thesis
    by (simp add: prod_eq_iff)
qed


text \<open>
  Claim C10. With an attempt budget of zero the retrier raises the exhaustion error at
  once and never invokes the operation; whatever the operation does, the number of
  invocations never exceeds the budget.
\<close>

theorem promiseWithRetry_budget:
  "promiseWithRetry operation 0 delay multiplier
     = ([], Inl (ThrownError ''Error'' ''Max retries reached''))
   \<and> invocations (fst (promiseWithRetry operation 0 delay multiplier)) = 0
   \<and> invocations (fst (promiseWithRetry operation retries delay multiplier)) \<le> retries"
  using promiseWithRetry_loop_invocations [of operation retries multiplier 0 delay "[]"]
  by (simp add: promiseWithRetry_def promiseWithRetry_loop.simps [of operation 0] newError_def
        invocations_def)

theorem promiseWithRetry_budget_witness:
  "promiseWithRetry (\<lambda>i. Inr [i]) 0 1000 2 = ([], Inl (ThrownError ''Error'' ''Max retries reached''))
   \<and> invocations (fst (promiseWithRetry (\<lambda>i. if i < 2 then Inl (ThrownString ''no'') else Inr [i]) 5 1000 2)) \<le> 5"
  using promiseWithRetry_budget [of "\<lambda>i. Inr [i]" 1000 2 0] promiseWithRetry_budget [of "\<lambda>i. if i < 2 then Inl (ThrownString ''no'') else Inr [i]" 1000 2 5]
  by simp


section \<open>Properties of the bulk scheduler\<close>

lemma foldl_settle:
  "foldl settle st rs =
     (fst st @ concat (map (\<lambda>r. case r of Inr v \<Rightarrow> v | Inl e \<Rightarrow> []) rs),
      snd st @ concat (map (\<lambda>r. case r of Inr v \<Rightarrow> [] | Inl e \<Rightarrow> [e]) rs))"
  by (induction rs arbitrary: st) (auto simp: settle_def split: sum.splits)

lemma processPromisesInBulks_loop_returns:
  assumes "0 < bulkSize"
  shows "processPromisesInBulks_loop fs bulkSize r d m i st =
           Some (foldl settle st (map (\<lambda>func. snd (promiseWithRetry func r d m)) (drop i fs)))"
proof (induction "length fs - i" arbitrary: i st rule: less_induct)
  case less
  show ?case
  proof (cases "i < length fs")
    case False
    then show ?thesis
      by (subst processPromisesInBulks_loop.simps) simp
  next
    case True
    with assms have "length fs - (i + bulkSize) < length fs - i" by arith
    note IH = less [OF this]
    have split: "drop i fs = take bulkSize (drop i fs) @ drop (i + bulkSize) fs"
      by (metis add.commute append_take_drop_id drop_drop)
    show ?thesis
      apply (subst processPromisesInBulks_loop.simps)
      apply (simp add: True IH Let_def)
      apply (subst (2) split)
      apply (simp only: map_append foldl_append)
      done
  qed
qed

lemma processPromisesInBulks_returns:
  "0 < bulkSize \<Longrightarrow>
   processPromisesInBulks fs bulkSize r d m =
     Some (concat (map (\<lambda>func. case firstSuccess func r of Some v \<Rightarrow> v | None \<Rightarrow> []) fs),
           map (\<lambda>func. newError ''Max retries reached'')
               (filter (\<lambda>func. firstSuccess func r = None) fs))"
proof -
  assume b: "0 < bulkSize"
  have 1: "concat (map (\<lambda>r. case r of Inr v \<Rightarrow> v | Inl e \<Rightarrow> [])
             (map (\<lambda>func. snd (promiseWithRetry func r d m)) fs))
         = concat (map (\<lambda>func. case firstSuccess func r of Some v \<Rightarrow> v | None \<Rightarrow> []) fs)"
    by (induction fs) (auto simp: promiseWithRetry_firstSuccess split: option.splits)
  have 2: "concat (map (\<lambda>r. case r of Inr v \<Rightarrow> [] | Inl e \<Rightarrow> [e])
             (map (\<lambda>func. snd (promiseWithRetry func r d m)) fs))
         = map (\<lambda>func. newError ''Max retries reached'')
               (filter (\<lambda>func. firstSuccess func r = None) fs)"
    by (induction fs) (auto simp: promiseWithRetry_firstSuccess split: option.splits)
  show ?thesis
    unfolding processPromisesInBulks_def processPromisesInBulks_loop_returns [OF b]
    by (simp add: foldl_settle 1 2 del: map_map)
qed

lemma additionalPages_loop_Finite:
  "additionalPages_loop page (Finite n) pages = Some (pages @ [page..n])"
proof (induction "nat (n - page + 1)" arbitrary: page pages)
  case 0
  then have "\<not> page \<le> n" by simp
  then show ?case by (subst additionalPages_loop.simps) simp
next
  case (Suc k)
  then have le: "page \<le> n" and k: "k = nat (n - (page + 1) + 1)" by auto
  show ?case
    apply (subst additionalPages_loop.simps)
    using upto_rec1 [OF le] apply (simp add: le Suc.hyps(1) [OF k])
    done
qed

lemma pages_concat:
  "concat (map (\<lambda>p. take c (drop (c * (nat p - 1)) es)) [2..int n + 1]) = take (c * n) (drop c es)"
proof (induction n)
  case 0
  then show ?case by simp
next
  case (Suc n)
  have up: "[2..int (Suc n) + 1] = [2..int n + 1] @ [int n + 2]"
    by (subst upto_rec2) (simp_all add: algebra_simps)
  have nt: "nat (int n + 2) - 1 = Suc n" by simp
  have "c * Suc n = c * n + c" by simp
  then have "take (c * Suc n) (drop c es)
               = take (c * n) (drop c es) @ take c (drop (c * n) (drop c es))"
    by (simp only: take_add)
  moreover have "drop (c * n) (drop c es) = drop (c * Suc n) es" by (simp add: add.commute)
  ultimately show ?case
    using Suc.IH by (simp only: up map_append concat_append nt list.map concat.simps append_Nil2)
qed



lemma parseInt_110: "parseInt ''110'' = Some 110"
  by (simp add: parseInt_def isWhiteSpace_def isDigitOf_def digitValue_def)

lemma upto_2_5: "[2..5] = [2, 3, 4, 5::int]"
  by (simp add: upto_rec1)

text \<open>
  Claim C7. For every list of operations (and a positive bulk size) the scheduler
  returns: its result is the concatenation, in the order of the operations, of the
  results of those that succeed within the retry budget; an operation that exhausts its
  retries adds nothing to the result and exactly one logged failure, and the operations
  after it still run.
\<close>

theorem processPromisesInBulks_partial_failure:
  "0 < bulkSize \<Longrightarrow>
   processPromisesInBulks operations bulkSize maxRetries initialBackoff delayMultiplier =
     Some (concat (map (\<lambda>operation. case firstSuccess operation maxRetries of
                                        Some entries \<Rightarrow> entries | None \<Rightarrow> []) operations),
           map (\<lambda>operation. ThrownError ''Error'' ''Max retries reached'')
               (filter (\<lambda>operation. firstSuccess operation maxRetries = None) operations))"
  using processPromisesInBulks_returns [of bulkSize operations maxRetries initialBackoff delayMultiplier]
  by (simp add: newError_def)


text \<open>
  Page 3 of 5 fails for good: the fetch returns the entries of pages 1, 2, 4 and 5, in
  that order, and logs one failure.
\<close>

theorem processPromisesInBulks_partial_failure_witness:
  "(0::nat) < 20 \<and>
   fetchStories page3Down
      \<lparr>p_version = ''published'', p_per_page = 25, p_cv = ''1'', p_language = ''it'',
       p_fallback_lang = None\<rparr>
     = Some ([ThrownError ''Error'' ''Max retries reached''],
             Inr (map (Pair 1) [0..<25] @ map (Pair 2) [0..<25] @ map (Pair 4) [0..<25]
                  @ map (Pair 5) [0..<10]))"
proof -
  have h: "(0::nat) < 20" by simp
  have ff: "find (\<lambda>i. False) xs = None" for xs :: "nat list"
    by (simp add: find_None_iff)
  have ok: "firstSuccess (fetchAdditionalStories page3Down 25 p ''it'' ''1'') 5
        = (if p = 3 then None else Some (map (Pair p) [0..<(if p = 5 then 10 else 25)]))" for p
    by (simp add: firstSuccess_def fetchAdditionalStories_def page3Down_def upt_conv_Cons [of 0 5]
          storiesOrEmpty_def ff)
  show ?thesis
    using processPromisesInBulks_partial_failure [OF h, of "map (\<lambda>page. fetchAdditionalStories page3Down 25 page ''it'' ''1'') [2, 3, 4, 5]" 5 1000 2]
    apply (simp add: fetchStories_def firstRequest_def page3Down_def totalFromHeader_def parseInt_110
        totalPagesOf_def additionalPages_loop_Finite upto_2_5 storiesOrEmpty_def ok
        del: upt_Suc)
    done
qed



section \<open>Properties of the paginated fetcher\<close>

lemma ceiling_div_25: "\<lceil>real_of_int n / 25\<rceil> = - ((- n) div 25)"
  using ceiling_divide_eq_div [of n 25] by simp

lemma totalFromHeader_absent:
  "header = None \<or> (\<exists>h. header = Some h \<and> parseInt h = None) \<Longrightarrow> totalFromHeader header = 0"
  by (auto simp: totalFromHeader_def parseInt_def isWhiteSpace_def isDigitOf_def digitValue_def)

lemma all_first_attempt:
  assumes "\<forall>f \<in> set fs. \<exists>v. f 0 = Inr v"
  shows "processPromisesInBulks fs 20 5 d m =
           Some (concat (map (\<lambda>f. case f 0 of Inr v \<Rightarrow> v | Inl e \<Rightarrow> []) fs), [])"
proof -
  have fs: "firstSuccess f 5 = (case f 0 of Inr v \<Rightarrow> Some v | Inl e \<Rightarrow> None)"
    if "\<exists>v. f 0 = Inr v" for f :: "nat \<Rightarrow> thrown + 'a list"
    using that by (auto simp: firstSuccess_def upt_conv_Cons [of 0 5])
  have 1: "map (\<lambda>func. case firstSuccess func 5 of Some v \<Rightarrow> v | None \<Rightarrow> []) fs
         = map (\<lambda>f. case f 0 of Inr v \<Rightarrow> v | Inl e \<Rightarrow> []) fs"
    by (rule map_cong) (use assms fs in \<open>auto split: sum.splits\<close>)
  have 2: "filter (\<lambda>func. firstSuccess func 5 = None) fs = []"
    using assms fs by (auto simp: filter_empty_conv)
  show ?thesis
    by (simp add: processPromisesInBulks_returns 1 2)
qed


lemma fetchStories_all_pages:
  assumes pp: "p_per_page params = 25"
    and first: "srv (firstRequest params) 0 = Inr firstData"
    and hdr: "header_total firstData = Some h" "parseInt h = Some n"
    and pages: "\<forall>page \<in> set [2..\<lceil>real_of_int n / 25\<rceil>].
             fetchAdditionalStories srv 25 page (p_language params) (p_cv params) 0
               = Inr (pageEntries page)"
  shows "fetchStories srv params
           = Some ([], Inr (storiesOrEmpty firstData
                            @ concat (map pageEntries [2..\<lceil>real_of_int n / 25\<rceil>])))"
proof -
  let ?P = "\<lceil>real_of_int n / 25\<rceil>"
  let ?fs = "map (\<lambda>page. fetchAdditionalStories srv 25 page (p_language params) (p_cv params))
               [2..?P]"
  have t: "totalFromHeader (header_total firstData) = n"
    by (simp add: totalFromHeader_def hdr)
  have "\<forall>f \<in> set ?fs. \<exists>v. f 0 = Inr v" using pages by auto
  then have "processPromisesInBulks ?fs 20 5 1000 2
               = Some (concat (map (\<lambda>f. case f 0 of Inr v \<Rightarrow> v | Inl e \<Rightarrow> []) ?fs), [])"
    by (rule all_first_attempt)
  moreover have "map (\<lambda>f. case f 0 of Inr v \<Rightarrow> v | Inl e \<Rightarrow> []) ?fs = map pageEntries [2..?P]"
    unfolding map_map by (rule map_cong) (use pages in auto)
  ultimately have bulk: "processPromisesInBulks ?fs 20 5 1000 2
               = Some (concat (map pageEntries [2..?P]), [])"
    by (simp only:)
  show ?thesis
    using bulk
    by (simp add: fetchStories_def first pp t totalPagesOf_def additionalPages_loop_Finite
          ceiling_div_25 [symmetric])
qed

lemma collection_pages:
  "take 25 entries @ concat (map (\<lambda>p. take 25 (drop (25 * (nat p - 1)) entries))
                                 [2..\<lceil>real_of_int (int (length entries)) / 25\<rceil>]) = entries"
proof (cases "length entries = 0")
  case True
  then show ?thesis by simp
next
  case False
  define L where "L = int (length entries)"
  define k where "k = nat (- ((- L) div 25) - 1)"
  have L: "0 < L" using False by (simp add: L_def)
  then have neg: "(- L) div 25 < 0" by (simp add: pos_imp_zdiv_neg_iff)
  have low: "25 * ((- L) div 25) \<le> - L" by presburger
  have P: "\<lceil>real_of_int (int (length entries)) / 25\<rceil> = int k + 1"
    using neg unfolding k_def ceiling_div_25 L_def by simp
  have "L \<le> 25 * int k + 25"
    using neg low unfolding k_def by simp
  then have "length entries \<le> 25 * k + 25"
    unfolding L_def by linarith
  then have "take (25 * k) (drop 25 entries) = drop 25 entries" by simp
  then show ?thesis
    unfolding P pages_concat by simp
qed


text \<open>
  Claim C8. At page size 25: (1) when the \<open>total\<close> header of the first response is
  absent or does not parse, the page loop asks for no further page and the fetch returns
  the entries of the first response alone, whatever the collection would answer to other
  requests; (2) otherwise the pages asked for are 2 to \<open>ceil(total / 25)\<close>, and when each
  of them is served at its first attempt the fetch returns the entries of the first
  response followed by theirs; (3) so a collection of \<open>N\<close> entries that announces \<open>N\<close>
  and serves its entries in pages of 25 is returned whole: exactly its \<open>N\<close> entries,
  those of page 1 first.
\<close>

theorem fetchStories_pagination:
  assumes "p_per_page params = 25"
  shows
   "(srv (firstRequest params) 0 = Inr firstData
       \<and> (header_total firstData = None
            \<or> (\<exists>h. header_total firstData = Some h \<and> parseInt h = None))
     \<longrightarrow> additionalPages_loop 2 (totalPagesOf (totalFromHeader (header_total firstData)) 25) []
           = Some []
         \<and> fetchStories srv params = Some ([], Inr (storiesOrEmpty firstData)))
  \<and> (srv (firstRequest params) 0 = Inr firstData
       \<and> header_total firstData = Some h \<and> parseInt h = Some n
       \<and> (\<forall>page \<in> set [2..\<lceil>real_of_int n / 25\<rceil>].
             fetchAdditionalStories srv 25 page (p_language params) (p_cv params) 0
               = Inr (pageEntries page))
     \<longrightarrow> fetchStories srv params
           = Some ([], Inr (storiesOrEmpty firstData
                            @ concat (map pageEntries [2..\<lceil>real_of_int n / 25\<rceil>]))))
  \<and> (parseInt header = Some (int (length entries))
     \<longrightarrow> fetchStories (collectionServer (Some header) entries) params
           = Some ([], Inr entries))"
proof (intro conjI impI)
  assume a: "srv (firstRequest params) 0 = Inr firstData
       \<and> (header_total firstData = None
            \<or> (\<exists>h. header_total firstData = Some h \<and> parseInt h = None))"
  then have t: "totalFromHeader (header_total firstData) = 0"
    using totalFromHeader_absent by blast
  show "additionalPages_loop 2 (totalPagesOf (totalFromHeader (header_total firstData)) 25) []
           = Some []"
    by (simp add: t totalPagesOf_def additionalPages_loop_Finite)
  from a show "fetchStories srv params = Some ([], Inr (storiesOrEmpty firstData))"
    by (simp add: fetchStories_def assms t totalPagesOf_def additionalPages_loop_Finite
          processPromisesInBulks_returns)
next
  assume a: "srv (firstRequest params) 0 = Inr firstData
       \<and> header_total firstData = Some h \<and> parseInt h = Some n
       \<and> (\<forall>page \<in> set [2..\<lceil>real_of_int n / 25\<rceil>].
             fetchAdditionalStories srv 25 page (p_language params) (p_cv params) 0
               = Inr (pageEntries page))"
  then show "fetchStories srv params
           = Some ([], Inr (storiesOrEmpty firstData
                            @ concat (map pageEntries [2..\<lceil>real_of_int n / 25\<rceil>])))"
    using fetchStories_all_pages [OF assms] by blast
next
  assume a: "parseInt header = Some (int (length entries))"
  let ?srv = "collectionServer (Some header) entries"
  let ?first = "\<lparr>header_total = Some header, body_stories = Some (take 25 entries)\<rparr>"
  have 1: "?srv (firstRequest params) 0 = Inr ?first"
    by (simp add: collectionServer_def firstRequest_def assms)
  have 2: "\<forall>page \<in> set [2..\<lceil>real_of_int (int (length entries)) / 25\<rceil>].
             fetchAdditionalStories ?srv 25 page (p_language params) (p_cv params) 0
               = Inr (take 25 (drop (25 * (nat page - 1)) entries))"
    by (simp add: fetchAdditionalStories_def collectionServer_def storiesOrEmpty_def)
  show "fetchStories ?srv params = Some ([], Inr entries)"
    using fetchStories_all_pages [OF assms 1 _ a 2] collection_pages [of entries]
    by (simp add: storiesOrEmpty_def)
qed

lemma parseInt_60: "parseInt ''60'' = Some 60"
  by (simp add: parseInt_def isWhiteSpace_def isDigitOf_def digitValue_def)


text \<open>
  Sixty entries announced as \<open>60\<close> come back in three pages; announced as \<open>many\<close>, only
  the first page of 25 is fetched.
\<close>

theorem fetchStories_pagination_witness:
  "p_per_page \<lparr>p_version = ''published'', p_per_page = 25, p_cv = ''1'', p_language = ''it'',
       p_fallback_lang = None\<rparr> = 25
   \<and> parseInt ''60'' = Some (int (length [0..<60]))
   \<and> fetchStories (collectionServer (Some ''60'') [0..<60])
        \<lparr>p_version = ''published'', p_per_page = 25, p_cv = ''1'', p_language = ''it'',
         p_fallback_lang = None\<rparr> = Some ([], Inr [0..<60])
   \<and> parseInt ''many'' = None
   \<and> fetchStories (collectionServer (Some ''many'') [0..<60])
        \<lparr>p_version = ''published'', p_per_page = 25, p_cv = ''1'', p_language = ''it'',
         p_fallback_lang = None\<rparr> = Some ([], Inr [0..<25])"
proof -
  let ?params = "\<lparr>p_version = ''published'', p_per_page = 25, p_cv = ''1'', p_language = ''it'',
       p_fallback_lang = None\<rparr>"
  have p: "p_per_page ?params = 25" by simp
  have many: "parseInt ''many'' = None"
    by (simp add: parseInt_def isWhiteSpace_def isDigitOf_def digitValue_def)
  have first: "collectionServer (Some ''many'') [0..<60] (firstRequest ?params) 0
                 = Inr \<lparr>header_total = Some ''many'', body_stories = Some [0..<25]\<rparr>"
    by (simp add: collectionServer_def firstRequest_def take_upt)
  note inst = fetchStories_pagination [OF p,
      where srv = "collectionServer (Some ''many'') [0..<60]"
        and firstData = "\<lparr>header_total = Some ''many'', body_stories = Some [0..<25]\<rparr>"
        and header = "''60''" and entries = "[0..<60]"]
  from inst first many parseInt_60 show ?thesis
    by (simp add: storiesOrEmpty_def)
qed



section \<open>Properties of the outer retry\<close>

text \<open>
  \<open>fetchStories\<close> wraps whatever it catches in a new \<open>Error\<close>, so the value that
  reaches the \<open>catch\<close> of \<open>fetchMarketStories\<close> is never a string, and the comparison
  \<open>err === 'Too Many Requests'\<close> is never true: no run pauses, and no run calls
  \<open>fetchStories\<close> a second time.
\<close>

lemma fetchStories_throws_Error:
  "fetchStories srv params = Some (logged, Inl err) \<Longrightarrow> \<exists>msg. err = ThrownError ''Error'' msg"
  by (auto simp: fetchStories_def newError_def Let_def split: sum.splits option.splits)

lemma sleeps_map_Log: "sleeps (map (\<lambda>r. Log (f r)) xs) = []"
  by (induction xs) auto

lemma fetchMarketStories_loop_single_attempt:
  "fetchMarketStories_loop world params retryAttempts retries evs = Some (evs', outcome)
   \<Longrightarrow> sleeps evs' = sleeps evs \<and> invocations evs' \<le> invocations evs + 1"
  apply (subst (asm) fetchMarketStories_loop.simps)
  apply (auto simp: Let_def sleeps_append sleeps_map_Log invocations_def
      split: if_splits option.splits sum.splits prod.splits dest!: fetchStories_throws_Error)
  done

lemma fetchMarketStories_never_pauses:
  "fetchMarketStories world SB_DATALAYER_RETRY fallbackMarket marketCode cv = Some (evs, outcome)
   \<Longrightarrow> sleeps evs = [] \<and> invocations evs \<le> 1"
  using fetchMarketStories_loop_single_attempt [of world _ _ 0 "[]" evs outcome]
  by (simp add: fetchMarketStories_def Let_def invocations_def)

lemma parseInt_3: "parseInt ''3'' = Some 3"
  by (simp add: parseInt_def isWhiteSpace_def isDigitOf_def digitValue_def)

lemma parseInt_5: "parseInt ''5'' = Some 5"
  by (simp add: parseInt_def isWhiteSpace_def isDigitOf_def digitValue_def)


text \<open>
  Claim C2 (the pause and retry on a "too many requests" signal). The first attempt is
  rejected with the string \<open>'Too Many Requests'\<close> and a second attempt would succeed;
  \<open>fetchMarketStories\<close>, with the default of 5 attempts, logs the wrapped error and
  raises at once, with no pause and no second attempt.
\<close>

theorem fetchMarketStories_too_many_requests_not_retried:
  "fetchMarketStories throttledOnce None None ''it'' ''1''
     = Some ([Invoke, Log ''Error: Failed to fetch to fetch stories: Too Many Requests''],
             Inl (ThrownError ''Error''
                   ''[DATALAYER] Error in fetchMarketStories: Error: Failed to fetch to fetch stories: Too Many Requests''))
   \<and> fetchStories (throttledOnce 1)
        \<lparr>p_version = ''published'', p_per_page = 25, p_cv = ''1'', p_language = ''it'',
         p_fallback_lang = None\<rparr> = Some ([], Inr [1, 2, 3])"
  by (simp add: fetchMarketStories_def parseInt_5 fetchMarketStories_loop.simps withinAttempts_def
     fetchStories_def throttledOnce_def firstRequest_def newError_def totalFromHeader_def
     parseInt_3 totalPagesOf_def additionalPages_loop_Finite processPromisesInBulks_returns
     storiesOrEmpty_def)


section \<open>Properties of the dictionary builder\<close>





section \<open>The whole-tree resolver on a reference cycle\<close>

lemma cycle_dictionary:
  "createReferencedStoriesDictionary cycleStore [0, 1] = [(''a'', 0), (''b'', 1)]"
  by (simp add: createReferencedStoriesDictionary_def storyKey_def cycleStore_def deref_def
      getProp_def toPropertyKey_def)




lemma deref_cycleTied:
  "deref cycleTied 0 = HObject [(''uuid'', VStr ''a''), (''content'', VRef 2)]"
  "deref cycleTied 1 = HObject [(''uuid'', VStr ''b''), (''content'', VRef 3)]"
  "deref cycleTied 2 = HObject [(''component'', VStr ''page''), (''related'', VRef 1)]"
  "deref cycleTied 3 = HObject [(''component'', VStr ''page''), (''related'', VRef 0)]"
  by (simp_all add: deref_def cycleTied_def)

lemma deref_cycleHalfTied:
  "deref cycleHalfTied 1 = HObject [(''uuid'', VStr ''b''), (''content'', VRef 3)]"
  "deref cycleHalfTied 3 = HObject [(''component'', VStr ''page''), (''related'', VStr ''a'')]"
  by (simp_all add: deref_def cycleHalfTied_def)

lemma deref_cycleStore:
  "deref cycleStore 0 = HObject [(''uuid'', VStr ''a''), (''content'', VRef 2)]"
  "deref cycleStore 2 = HObject [(''component'', VStr ''page''), (''related'', VStr ''b'')]"
  by (simp_all add: deref_def cycleStore_def)

lemma deref_cycleSelfTied:
  "deref cycleSelfTied 0 = HObject [(''uuid'', VRef 0), (''content'', VRef 2)]"
  by (simp_all add: deref_def cycleSelfTied_def)

lemma assign_cycle:
  "assign cycleStore 2 ''related'' (VRef 1) = cycleHalfTied"
  "assign cycleHalfTied 3 ''related'' (VRef 0) = cycleTied"
  "assign cycleStore 0 ''uuid'' (VRef 0) = cycleSelfTied"
  by (simp_all add: assign_def deref_def cycleStore_def cycleHalfTied_def cycleTied_def
        cycleSelfTied_def)

lemma lookup_cycle:
  "lookupDictionary [(''a'', 0), (''b'', 1)] h (VStr ''page'') = VUndefined"
  "lookupDictionary [(''a'', 0), (''b'', 1)] h (VStr ''a'') = VRef 0"
  "lookupDictionary [(''a'', 0), (''b'', 1)] h (VStr ''b'') = VRef 1"
  by (simp_all add: lookupDictionary_def toPropertyKey_def)

lemma cycleTied_loops:
  "resolveStory reservedKey [(''a'', 0), (''b'', 1)] n 0 cycleTied = Threw stackOverflow cycleTied
 \<and> resolveStory reservedKey [(''a'', 0), (''b'', 1)] n 1 cycleTied = Threw stackOverflow cycleTied
 \<and> resolveStory reservedKey [(''a'', 0), (''b'', 1)] n 2 cycleTied = Threw stackOverflow cycleTied
 \<and> resolveStory reservedKey [(''a'', 0), (''b'', 1)] n 3 cycleTied = Threw stackOverflow cycleTied"
proof (induction n)
  case 0
  show ?case by simp
next
  case (Suc n)
  then show ?case
    by (simp add: deref_cycleTied reservedKey_def lookup_cycle del: One_nat_def)
qed

lemma cycle_reserved_3:
  "resolveStory reservedKey [(''a'', 0), (''b'', 1)] n 3 cycleHalfTied
     = Threw stackOverflow (if n = 0 then cycleHalfTied else cycleTied)"
  by (cases n)
     (simp_all add: deref_cycleHalfTied reservedKey_def lookup_cycle assign_cycle cycleTied_loops
        del: One_nat_def)

lemma cycle_reserved_1:
  "resolveStory reservedKey [(''a'', 0), (''b'', 1)] n 1 cycleHalfTied
     = Threw stackOverflow (if n \<le> 1 then cycleHalfTied else cycleTied)"
  by (cases n)
     (simp_all add: deref_cycleHalfTied reservedKey_def cycle_reserved_3 del: One_nat_def)

lemma cycle_reserved_2:
  "resolveStory reservedKey [(''a'', 0), (''b'', 1)] n 2 cycleStore
     = Threw stackOverflow
         (if n = 0 then cycleStore else if n \<le> 2 then cycleHalfTied else cycleTied)"
  by (cases n)
     (simp_all add: deref_cycleStore reservedKey_def lookup_cycle assign_cycle cycle_reserved_1
        del: One_nat_def)

lemma cycle_reserved_0:
  "resolveStory reservedKey [(''a'', 0), (''b'', 1)] n 0 cycleStore
     = Threw stackOverflow
         (if n \<le> 1 then cycleStore else if n \<le> 3 then cycleHalfTied else cycleTied)"
  by (cases n)
     (simp_all add: deref_cycleStore reservedKey_def cycle_reserved_2 del: One_nat_def)

lemma cycleSelfTied_loops:
  "resolveStory (\<lambda>k. False) [(''a'', 0), (''b'', 1)] n 0 cycleSelfTied
     = Threw stackOverflow cycleSelfTied"
  by (induction n) (simp_all add: deref_cycleSelfTied del: One_nat_def)

lemma cycle_plain_0:
  "resolveStory (\<lambda>k. False) [(''a'', 0), (''b'', 1)] n 0 cycleStore
     = Threw stackOverflow (if n = 0 then cycleStore else cycleSelfTied)"
  by (cases n)
     (simp_all add: deref_cycleStore lookup_cycle assign_cycle cycleSelfTied_loops
        del: One_nat_def)


text \<open>
  Claim C1 (termination on a reference cycle). Entry \<open>a\<close> names \<open>b\<close> in its content
  and \<open>b\<close> names \<open>a\<close>. Whatever number of stack frames the call is given, neither
  version of \<open>resolveRelationsForStory\<close> returns: both run out of frames and throw.
\<close>

theorem resolveRelationsForStory_cycle_overflows:
  "(\<forall>frames. \<exists>h. resolveRelationsForStory (createReferencedStoriesDictionary cycleStore [0, 1])
                     frames 0 cycleStore = Threw stackOverflow h)
 \<and> (\<forall>frames. \<exists>h. resolveRelationsForStory_reserved
                     (createReferencedStoriesDictionary cycleStore [0, 1])
                     frames 0 cycleStore = Threw stackOverflow h)"
  by (simp add: resolveRelationsForStory_def resolveRelationsForStory_reserved_def
      cycle_dictionary cycle_plain_0 cycle_reserved_0 del: One_nat_def)



section \<open>The whole-tree resolver and the reserved keys\<close>

lemma page_dictionary:
  "createReferencedStoriesDictionary pageStore [0] = [(''a'', 0)]"
  by (simp add: createReferencedStoriesDictionary_def storyKey_def pageStore_def deref_def
      getProp_def toPropertyKey_def)

lemma deref_page:
  "deref pageStore 0 = HObject [(''name'', VStr ''Home''), (''uuid'', VStr ''a''), (''content'', VRef 1)]"
  "deref pageSelfTied 0 = HObject [(''name'', VStr ''Home''), (''uuid'', VRef 0), (''content'', VRef 1)]"
  "assign pageStore 0 ''uuid'' (VRef 0) = pageSelfTied"
  by (simp_all add: deref_def assign_def pageStore_def pageSelfTied_def)

lemma lookup_page:
  "lookupDictionary [(''a'', 0)] h (VStr ''Home'') = VUndefined"
  "lookupDictionary [(''a'', 0)] h (VStr ''a'') = VRef 0"
  by (simp_all add: lookupDictionary_def toPropertyKey_def)

lemma pageSelfTied_loops:
  "resolveStory (\<lambda>k. False) [(''a'', 0)] n 0 pageSelfTied = Threw stackOverflow pageSelfTied"
  by (induction n) (simp_all add: deref_page lookup_page del: One_nat_def)


text \<open>
  Claim C4 (reserved keys are never substituted). The resolver of
  \<open>src/storyblok-fast-client.ts\<close> is run on the one entry of \<open>pageStore\<close> with the
  dictionary built from it. The value under \<open>uuid\<close> is the identifier \<open>a\<close>, which the
  dictionary knows: the resolver replaces it by the entry, recurses into the entry it has
  just made part of itself, and throws when the stack is used up.
\<close>

theorem resolveRelationsForStory_substitutes_uuid:
  "getProp (deref pageStore 0) ''uuid'' = VStr ''a''
 \<and> getProp (deref pageSelfTied 0) ''uuid'' = VRef 0
 \<and> (\<forall>frames. resolveRelationsForStory (createReferencedStoriesDictionary pageStore [0])
                  (Suc frames) 0 pageStore = Threw stackOverflow pageSelfTied)"
  by (simp add: resolveRelationsForStory_def page_dictionary deref_page lookup_page
        pageSelfTied_loops getProp_def del: One_nat_def)


section \<open>The declared-field resolver on an entry it cannot resolve further\<close>

lemma list_dictionary:
  "createReferencedStoriesDictionary listStore [0] = [(''s'', 0)]"
  by (simp add: createReferencedStoriesDictionary_def storyKey_def listStore_def deref_def
      getProp_def toPropertyKey_def)


text \<open>
  Claim C5 (idempotence and exit by the no-change flag). The \<open>label\<close> of the \<open>List\<close>
  block names no entry, so the resolver leaves the entry as it is: the entry is as
  resolved as it gets, and a second run is this same run. It sets \<open>changed\<close> all the
  same, in each iteration, so the loop ends only when \<open>counter\<close> has passed
  \<open>maxLevelOfNesting = 10\<close>: after 11 iterations.
\<close>

theorem resolveNestedComponents_runs_to_the_cap:
  "resolveNestedComponents 20 ''content.body'' RELATIONS_TO_RESOLVE (VRef 0)
         (createReferencedStoriesDictionary listStore [0]) 10 listStore = Returned 11 listStore"
  by code_simp



section \<open>The declared-field resolver, field by field\<close>




lemma length_assign [simp]: "length (assign h c k v) = length h"
  by (simp add: assign_def)



lemma fst_alloc [simp]: "fst (alloc ob h) = length h"
  by (simp add: alloc_def)

lemma length_alloc [simp]: "length (snd (alloc ob h)) = Suc (length h)"
  by (simp add: alloc_def)

















section \<open>The guarded whole-tree resolver and the reserved keys\<close>

lemma showNat_digits: "showNat n \<noteq> [] \<and> of_char (hd (showNat n)) < (58::nat)"
proof (induction n rule: showNat.induct)
  case (1 n)
  show ?case
  proof (cases "n < 10")
    case True
    then show ?thesis by (subst showNat.simps, subst (2) showNat.simps) simp
  next
    case False
    with 1 show ?thesis by (subst showNat.simps, subst (2) showNat.simps) simp
  qed
qed

lemma showNat_not_reserved: "\<not> reservedKey (showNat n)"
  using showNat_digits [of n] by (auto simp: reservedKey_def)

lemma getProp_HArray_reserved: "reservedKey k \<Longrightarrow> getProp (HArray items) k = VUndefined"
proof -
  assume r: "reservedKey k"
  have "k \<notin> set (map showNat [0..<length items])"
    using r showNat_not_reserved by auto
  then have "map_of (zip (map showNat [0..<length items]) items) k = None"
    by (subst map_of_zip_is_None) simp_all
  then show ?thesis
    unfolding getProp_def objectEntries.simps by (simp only: option.case)
qed

lemma getProp_setProp_reserved:
  "reservedKey k' \<Longrightarrow> \<not> reservedKey k \<Longrightarrow> getProp (setProp ob k v) k' = getProp ob k'"
proof (cases ob)
  case (HObject props)
  assume "reservedKey k'" "\<not> reservedKey k"
  then have "k' \<noteq> k" by auto
  with HObject show ?thesis by (simp add: getProp_def update_conv')
next
  case (HArray items)
  assume "reservedKey k'"
  with HArray show ?thesis by (simp add: getProp_HArray_reserved)
qed

lemma sameReserved_refl: "sameReserved h h"
  by (simp add: sameReserved_def)

lemma sameReserved_trans: "sameReserved h h1 \<Longrightarrow> sameReserved h1 h2 \<Longrightarrow> sameReserved h h2"
  by (simp add: sameReserved_def)

lemma sameReserved_assign: "\<not> reservedKey k \<Longrightarrow> sameReserved h (assign h s k v)"
  by (auto simp: sameReserved_def assign_def deref_def getProp_setProp_reserved nth_list_update)

lemma getProp_empty: "getProp (HObject []) k = VUndefined"
  by (simp add: getProp_def)

lemma sameReserved_alloc: "sameReserved h (snd (alloc (HArray items) h))"
  by (auto simp: sameReserved_def alloc_def deref_def nth_append getProp_HArray_reserved
      getProp_empty)

lemma reserved_kept:
  "(\<forall>k. reservedKey k \<longrightarrow> skip k)
     \<Longrightarrow> sameReserved h (heapOf (resolveStory skip d n story h))"
  "(\<forall>k. reservedKey k \<longrightarrow> skip k)
     \<Longrightarrow> sameReserved h (heapOf (resolveEntries skip d n story es h))"
  "(\<forall>k. reservedKey k \<longrightarrow> skip k)
     \<Longrightarrow> sameReserved h (heapOf (mapItems skip d n array indices mapped h))"
proof (induction skip d n story h and skip d n story es h and skip d n array indices mapped h
       rule: resolveStory_resolveEntries_mapItems.induct)
  case (1 skip dictionary story h)
  show ?case by (simp add: sameReserved_refl)
next
  case (2 skip dictionary frames story h)
  then show ?case by simp
next
  case (3 skip dictionary frames story h)
  show ?case by (simp add: sameReserved_refl)
next
  case (4 skip dictionary frames story k v rest h)
  note skip = "4.prems"
  show ?case
  proof (cases "v \<noteq> VNull \<and> \<not> skip k")
    case False
    from "4.IH"(8) [OF False skip] False show ?thesis by auto
  next
    case True
    with skip have nk: "\<not> reservedKey k" by auto
    show ?thesis
    proof (cases "asRef v")
      case (Some a)
      show ?thesis
      proof (cases "deref h a")
        case (HArray items)
        show ?thesis
        proof (cases "mapItems skip dictionary frames a [0..<length items] [] h")
          case (Threw e h')
          with "4.IH"(6) [OF True Some HArray skip] True Some HArray show ?thesis by simp
        next
          case (Returned mapped h')
          let ?h1 = "snd (alloc (HArray mapped) h')"
          let ?h2 = "assign ?h1 story k (VRef (fst (alloc (HArray mapped) h')))"
          from "4.IH"(6) [OF True Some HArray skip] Returned have "sameReserved h h'" by simp
          moreover have "sameReserved h' ?h1" by (rule sameReserved_alloc)
          moreover have "sameReserved ?h1 ?h2" using nk by (rule sameReserved_assign)
          moreover have "sameReserved ?h2 (heapOf (resolveEntries skip dictionary frames story rest ?h2))"
            using "4.IH"(7) [OF True Some HArray Returned skip] .
          ultimately show ?thesis
            using True Some HArray Returned by (auto intro: sameReserved_trans)
        qed
      next
        case (HObject props)
        show ?thesis
        proof (cases "resolveStory skip dictionary frames a h")
          case (Threw e h')
          with "4.IH"(4) [OF True Some HObject skip] True Some HObject show ?thesis by simp
        next
          case (Returned u h')
          let ?h2 = "assign h' story k (VRef a)"
          from "4.IH"(4) [OF True Some HObject skip] Returned have "sameReserved h h'" by simp
          moreover have "sameReserved h' ?h2" using nk by (rule sameReserved_assign)
          moreover have "sameReserved ?h2 (heapOf (resolveEntries skip dictionary frames story rest ?h2))"
            using "4.IH"(5) [OF True Some HObject Returned skip] .
          ultimately show ?thesis
            using True Some HObject Returned by (auto intro: sameReserved_trans)
        qed
      qed
    next
      case None
      show ?thesis
      proof (cases "asRef (lookupDictionary dictionary h v)")
        case none: None
        with "4.IH"(1) [OF True None none skip] True None show ?thesis by simp
      next
        case (Some entry)
        let ?h1 = "assign h story k (VRef entry)"
        have a: "sameReserved h ?h1" using nk by (rule sameReserved_assign)
        show ?thesis
        proof (cases "resolveStory skip dictionary frames entry ?h1")
          case (Threw e h')
          with "4.IH"(2) [OF True None Some skip] a True None Some show ?thesis
            by (auto intro: sameReserved_trans)
        next
          case (Returned u h')
          from "4.IH"(2) [OF True None Some skip] Returned have "sameReserved ?h1 h'" by simp
          moreover have "sameReserved h' (heapOf (resolveEntries skip dictionary frames story rest h'))"
            using "4.IH"(3) [OF True None Some Returned skip] .
          ultimately show ?thesis
            using a True None Some Returned by (auto intro: sameReserved_trans)
        qed
      qed
    qed
  qed
next
  case (5 skip dictionary frames array mapped h)
  show ?case by (simp add: sameReserved_refl)
next
  case (6 skip dictionary frames array i indices mapped h)
  note skip = "6.prems"
  let ?item = "getProp (deref h array) (showNat i)"
  show ?case
  proof (cases "asRef ?item")
    case None
    show ?thesis
    proof (cases "asRef (lookupDictionary dictionary h ?item)")
      case none: None
      with "6.IH"(1) [OF None none skip] None show ?thesis by simp
    next
      case (Some entry)
      with "6.IH"(2) [OF None Some skip] None show ?thesis by simp
    qed
  next
    case (Some a)
    show ?thesis
    proof (cases "resolveStory skip dictionary frames a h")
      case (Threw e h')
      with "6.IH"(3) [OF Some skip] Some show ?thesis by simp
    next
      case (Returned u h')
      from "6.IH"(3) [OF Some skip] Returned have "sameReserved h h'" by simp
      moreover have "sameReserved h' (heapOf (mapItems skip dictionary frames array indices
                                                (mapped @ [VRef a]) h'))"
        using "6.IH"(4) [OF Some Returned skip] .
      ultimately show ?thesis using Some Returned by (auto intro: sameReserved_trans)
    qed
  qed
qed


text \<open>
  The resolver of the second file, with its test \<open>k !== 'uuid' && k !== '_uid'\<close>, never
  changes a value under a reserved key, whether it returns or throws.
\<close>

theorem resolveRelationsForStory_reserved_keeps_reserved_keys:
  "sameReserved h (heapOf (resolveRelationsForStory_reserved dictionary frames story h))"
  unfolding resolveRelationsForStory_reserved_def by (rule reserved_kept(1)) simp

theorem resolveRelationsForStory_reserved_keeps_reserved_keys_witness:
  "reservedKey ''uuid''
 \<and> getProp (deref (heapOf (resolveRelationsForStory_reserved [(''a'', 0)] 20 0 pageStore)) 0) ''uuid''
     = VStr ''a''"
proof -
  have r: "reservedKey ''uuid''" by (simp add: reservedKey_def)
  have "getProp (deref pageStore 0) ''uuid'' = VStr ''a''"
    by (simp add: deref_def pageStore_def getProp_def)
  with r resolveRelationsForStory_reserved_keeps_reserved_keys [of pageStore "[(''a'', 0)]" 20 0]
  show ?thesis by (simp add: sameReserved_def)
qed

section \<open>The depth cap of \<open>replaceUUIDs\<close>\<close>

text \<open>
  At the cap \<open>replaceUUIDs\<close> returns what it was given, and every substitution of an
  entry is one step towards the cap. On the two entries that name each other the
  expansion stops: with \<open>maxDepth = 2\<close>, the content of \<open>a\<close> holds \<open>b\<close>, which holds
  \<open>a\<close>, whose content is left as it was.
\<close>

theorem replaceUUIDs_stops_at_the_cap:
  "maxDepth \<le> currentDepth \<Longrightarrow> replaceUUIDs dict maxDepth content currentDepth = content"
  by (simp add: replaceUUIDs.simps)

theorem replaceUUIDs_stops_at_the_cap_witness:
  "(2::nat) \<le> 2
 \<and> replaceUUIDs cycleEntries 2 (JObj [(''component'', JStr ''page''), (''related'', JStr ''b'')]) 0
     = JObj [(''component'', JStr ''page''),
             (''related'',
              JObj [(''uuid'', JStr ''b''),
                    (''content'',
                     JObj [(''component'', JStr ''page''),
                           (''related'',
                            JObj [(''uuid'', JStr ''a''),
                                  (''content'',
                                   JObj [(''component'', JStr ''page''),
                                         (''related'', JStr ''b'')])])])])]"
proof -
  have cap: "(2::nat) \<le> 2" by simp
  have "replaceUUIDs cycleEntries 2
          (JObj [(''component'', JStr ''page''), (''related'', JStr ''b'')]) 0
      = JObj [(''component'', JStr ''page''),
             (''related'',
              JObj [(''uuid'', JStr ''b''),
                    (''content'',
                     JObj [(''component'', JStr ''page''),
                           (''related'',
                            JObj [(''uuid'', JStr ''a''),
                                  (''content'',
                                   replaceUUIDs cycleEntries 2
                                     (JObj [(''component'', JStr ''page''),
                                            (''related'', JStr ''b'')]) 2)])])])]"
    by code_simp
  with cap show ?thesis
    by (simp only: replaceUUIDs_stops_at_the_cap [OF cap] simp_thms)
qed

end
